theory Spec2Isabelle
  imports Complex_Main "HOL-Library.Word"
begin

section \<open>Python and numpy values\<close>

text \<open>
  The program is \<^verbatim>\<open>beam_profiler_v1.2.py\<close>: a camera loop that subtracts a
  background frame, crops to an area of interest (AOI), plots intensity curves and, on
  request, fits a Gaussian to the summed projections. Exceptions are values of type
  \<open>exn\<close>; a function that can raise returns \<open>exn + 'a\<close>.
\<close>

datatype exn = ValueError | RuntimeError | TypeError | AttributeError | UnboundLocalError

subsection \<open>Two-dimensional integer arrays\<close>

text \<open>
  \<^verbatim>\<open>get_image\<close> returns \<^verbatim>\<open>img_array.astype('int')\<close> with shape
  (height, width). An array is its number of columns and its list of rows; the number of
  columns is kept apart because numpy keeps it for an array of zero rows. Pixel values
  come from 8-bit samples, so the integer arithmetic below never leaves the machine
  range and is written on \<open>int\<close>.
\<close>

datatype ndarray = NDArray (ncols: nat) (rows: "int list list")

definition nrows :: "ndarray \<Rightarrow> nat" where
  "nrows a = length (rows a)"

definition shape_ok :: "ndarray \<Rightarrow> bool" where
  "shape_ok a = list_all (\<lambda>r. length r = ncols a) (rows a)"

definition ravel :: "ndarray \<Rightarrow> int list" where
  "ravel a = concat (rows a)"

text \<open>
  \<^verbatim>\<open>a - b\<close> and \<^verbatim>\<open>a + b\<close> where \<open>b\<close> is the background: the Python
  integer \<open>0\<close> until a background is recorded (\<open>None\<close> here), then an array. The
  camera gives every frame the same shape; arrays of different shapes are reported as the
  \<^verbatim>\<open>ValueError\<close> of a failed broadcast.
\<close>

definition np_sub :: "ndarray \<Rightarrow> ndarray option \<Rightarrow> exn + ndarray" where
  "np_sub a bg =
     (case bg of
        None \<Rightarrow> Inr (NDArray (ncols a) (map (map (\<lambda>v. v - 0)) (rows a)))
      | Some b \<Rightarrow>
          if nrows b = nrows a \<and> ncols b = ncols a
          then Inr (NDArray (ncols a) (map2 (map2 (\<lambda>v w. v - w)) (rows a) (rows b)))
          else Inl ValueError)"

definition np_add :: "ndarray \<Rightarrow> ndarray option \<Rightarrow> exn + ndarray" where
  "np_add a bg =
     (case bg of
        None \<Rightarrow> Inr (NDArray (ncols a) (map (map (\<lambda>v. v + 0)) (rows a)))
      | Some b \<Rightarrow>
          if nrows b = nrows a \<and> ncols b = ncols a
          then Inr (NDArray (ncols a) (map2 (map2 (\<lambda>v w. v + w)) (rows a) (rows b)))
          else Inl ValueError)"

text \<open>Slices \<^verbatim>\<open>xs[a:b]\<close>: a negative bound counts from the end, and both are clipped.\<close>

definition slice_idx :: "int \<Rightarrow> nat \<Rightarrow> nat" where
  "slice_idx i n = (if i < 0 then nat (max 0 (i + int n)) else min (nat i) n)"

definition py_slice :: "int \<Rightarrow> int \<Rightarrow> 'a list \<Rightarrow> 'a list" where
  "py_slice a b xs =
     (let n = length xs; lo = slice_idx a n; hi = slice_idx b n
      in take (hi - lo) (drop lo xs))"

definition slice_len :: "int \<Rightarrow> int \<Rightarrow> nat \<Rightarrow> nat" where
  "slice_len a b n = slice_idx b n - slice_idx a n"

text \<open>\<^verbatim>\<open>a[y0:y1, x0:x1]\<close>\<close>

definition crop :: "int \<Rightarrow> int \<Rightarrow> int \<Rightarrow> int \<Rightarrow> ndarray \<Rightarrow> ndarray" where
  "crop y0 y1 x0 x1 a =
     NDArray (slice_len x0 x1 (ncols a)) (map (py_slice x0 x1) (py_slice y0 y1 (rows a)))"

text \<open>\<^verbatim>\<open>int(x)\<close> of a finite float: truncation towards zero.\<close>

definition py_int :: "real \<Rightarrow> int" where
  "py_int x = (if 0 \<le> x then \<lfloor>x\<rfloor> else \<lceil>x\<rceil>)"

text \<open>\<^verbatim>\<open>np.sum(a, axis=0)\<close> (down each column) and \<^verbatim>\<open>np.sum(a, axis=1)\<close> (along each row).\<close>

definition np_sum0 :: "ndarray \<Rightarrow> int list" where
  "np_sum0 a = map (\<lambda>j. sum_list (map (\<lambda>r. r ! j) (rows a))) [0..<ncols a]"

definition np_sum1 :: "ndarray \<Rightarrow> int list" where
  "np_sum1 a = map sum_list (rows a)"

text \<open>
  \<^verbatim>\<open>max\<close> and \<^verbatim>\<open>argmax\<close> of an integer array: a \<^verbatim>\<open>ValueError\<close> on an empty
  one; \<^verbatim>\<open>argmax\<close> is the first position of the maximum.
\<close>

fun index_of :: "int \<Rightarrow> int list \<Rightarrow> nat" where
  "index_of v [] = 0"
| "index_of v (x # xs) = (if x = v then 0 else Suc (index_of v xs))"

definition np_max :: "int list \<Rightarrow> exn + int" where
  "np_max xs = (case xs of [] \<Rightarrow> Inl ValueError | y # ys \<Rightarrow> Inr (fold max ys y))"

definition np_argmax :: "int list \<Rightarrow> exn + nat" where
  "np_argmax xs = (case np_max xs of Inl e \<Rightarrow> Inl e | Inr m \<Rightarrow> Inr (index_of m xs))"

definition unravel_index :: "nat \<Rightarrow> nat \<times> nat \<Rightarrow> nat \<times> nat" where
  "unravel_index k shp = (k div snd shp, k mod snd shp)"

text \<open>\<^verbatim>\<open>np.roll(a, k)\<close> on a one-dimensional array: the entry at \<open>i\<close> moves to \<open>(i + k) mod n\<close>.\<close>

definition np_roll :: "nat \<Rightarrow> 'a list \<Rightarrow> 'a list" where
  "np_roll k xs =
     (if xs = [] then []
      else let n = length xs; j = k mod n in drop (n - j) xs @ take (n - j) xs)"

subsection \<open>Floating point\<close>

text \<open>
  A Python float or \<^verbatim>\<open>np.float64\<close> is a binary64 number: a finite value, an
  infinity or a NaN. \<open>rnd64\<close> rounds a real to the nearest binary64 number, ties to
  even; below \<open>2 powr -1022\<close> the spacing is that of the subnormal numbers. \<open>fin\<close>
  gives the result of an operation whose exact value is the real \<open>x\<close>: the rounded
  value, or an infinity when it is out of range. The two zeros are not told apart: a
  zero this program divides by is a sum of integers or of a non-negative product, which
  is \<open>+0.0\<close>, or the fitted width, whose quotient is squared. The library functions
  \<^verbatim>\<open>exp\<close> and \<^verbatim>\<open>pow\<close> are taken as correctly rounded.
\<close>

datatype fl = Fin real | PInf | NInf | NaN

definition ties_even :: "real \<Rightarrow> int" where
  "ties_even x =
     (let f = \<lfloor>x\<rfloor>; d = x - of_int f
      in if d < 1 / 2 then f else if 1 / 2 < d then f + 1 else if even f then f else f + 1)"

definition ulp_exp :: "real \<Rightarrow> int" where
  "ulp_exp x = max \<lfloor>log 2 \<bar>x\<bar>\<rfloor> (- 1022) - 52"

definition rnd64 :: "real \<Rightarrow> real" where
  "rnd64 x =
     (if x = 0 then 0
      else of_int (ties_even (x / 2 powr of_int (ulp_exp x))) * 2 powr of_int (ulp_exp x))"

definition fin :: "real \<Rightarrow> fl" where
  "fin x =
     (let r = rnd64 x
      in if 2 ^ 1024 \<le> r then PInf else if r \<le> - (2 ^ 1024) then NInf else Fin r)"

definition sgn_fl :: "fl \<Rightarrow> int" where
  "sgn_fl x =
     (case x of Fin a \<Rightarrow> (if a < 0 then - 1 else if a = 0 then 0 else 1)
      | PInf \<Rightarrow> 1 | NInf \<Rightarrow> - 1 | NaN \<Rightarrow> 0)"

definition inf_sgn :: "int \<Rightarrow> fl" where
  "inf_sgn k = (if k = 0 then NaN else if 0 < k then PInf else NInf)"

definition f_of_int :: "int \<Rightarrow> fl" where
  "f_of_int n = fin (of_int n)"

definition fabs :: "fl \<Rightarrow> fl" where
  "fabs x = (case x of Fin a \<Rightarrow> Fin \<bar>a\<bar> | PInf \<Rightarrow> PInf | NInf \<Rightarrow> PInf | NaN \<Rightarrow> NaN)"

definition fneg :: "fl \<Rightarrow> fl" where
  "fneg x = (case x of Fin a \<Rightarrow> Fin (- a) | PInf \<Rightarrow> NInf | NInf \<Rightarrow> PInf | NaN \<Rightarrow> NaN)"

definition fmul :: "fl \<Rightarrow> fl \<Rightarrow> fl" where
  "fmul x y =
     (if x = NaN \<or> y = NaN then NaN
      else case (x, y) of
        (Fin a, Fin b) \<Rightarrow> fin (a * b)
      | _ \<Rightarrow> inf_sgn (sgn_fl x * sgn_fl y))"

definition fdiv :: "fl \<Rightarrow> fl \<Rightarrow> fl" where
  "fdiv x y =
     (if x = NaN \<or> y = NaN then NaN
      else case (x, y) of
        (Fin a, Fin b) \<Rightarrow> (if b = 0 then inf_sgn (sgn_fl x) else fin (a / b))
      | (Fin a, _) \<Rightarrow> Fin 0
      | (_, Fin b) \<Rightarrow> inf_sgn (sgn_fl x * (if b < 0 then - 1 else 1))
      | _ \<Rightarrow> NaN)"

definition fadd :: "fl \<Rightarrow> fl \<Rightarrow> fl" where
  "fadd x y =
     (if x = NaN \<or> y = NaN then NaN
      else case (x, y) of
        (Fin a, Fin b) \<Rightarrow> fin (a + b)
      | (Fin a, _) \<Rightarrow> y
      | (_, Fin b) \<Rightarrow> x
      | _ \<Rightarrow> (if x = y then x else NaN))"

definition fsub :: "fl \<Rightarrow> fl \<Rightarrow> fl" where
  "fsub x y = fadd x (fneg y)"

definition fexp :: "fl \<Rightarrow> fl" where
  "fexp x = (case x of Fin a \<Rightarrow> fin (exp a) | PInf \<Rightarrow> PInf | NInf \<Rightarrow> Fin 0 | NaN \<Rightarrow> NaN)"

text \<open>\<^verbatim>\<open>10 ** y\<close> for a Python float \<open>y\<close>.\<close>

definition fpow10 :: "fl \<Rightarrow> fl" where
  "fpow10 y = (case y of Fin a \<Rightarrow> fin (10 powr a) | PInf \<Rightarrow> PInf | NInf \<Rightarrow> Fin 0 | NaN \<Rightarrow> NaN)"

text \<open>\<^verbatim>\<open>max\<close> of a float array: a NaN entry makes the result NaN.\<close>

definition fmax2 :: "fl \<Rightarrow> fl \<Rightarrow> fl" where
  "fmax2 x y =
     (if x = NaN \<or> y = NaN then NaN
      else case (x, y) of
        (Fin a, Fin b) \<Rightarrow> Fin (max a b)
      | (PInf, _) \<Rightarrow> PInf | (_, PInf) \<Rightarrow> PInf
      | (NInf, _) \<Rightarrow> y | (_, NInf) \<Rightarrow> x)"

definition np_fmax :: "fl list \<Rightarrow> exn + fl" where
  "np_fmax xs = (case xs of [] \<Rightarrow> Inl ValueError | y # ys \<Rightarrow> Inr (fold fmax2 ys y))"

text \<open>The literals \<^verbatim>\<open>0.037\<close> and \<^verbatim>\<open>5.2e-3\<close>, as the binary64 numbers Python reads.\<close>

definition lit_0_037 :: fl where
  "lit_0_037 = Fin (rnd64 (37 / 1000))"

definition pixel_size :: fl where
  "pixel_size = Fin (rnd64 (52 / 10000))"

section \<open>The program state\<close>

text \<open>
  \<^verbatim>\<open>class AOI_rect\<close> and the global \<^verbatim>\<open>AOI\<close>. The fields start as Python
  integers and are overwritten with the floats of the axes limits; both are finite reals.
\<close>

record AOI_rect =
  xmin :: real
  xmax :: real
  ymin :: real
  ymax :: real

text \<open>The text of the waist box, \<^verbatim>\<open>'wx = %.4f | wy = %.4f (mm)' % (a, b)\<close>, kept as its two arguments.\<close>

datatype message = NoText | WaistText fl fl

text \<open>A saved PNG file: the 8-bit array given to \<^verbatim>\<open>Image.fromarray\<close>.\<close>

type_synonym png = "8 word list list"

text \<open>
  The fields of \<^verbatim>\<open>main\<close> that the camera loop and the handlers read and write,
  after the set-up part of \<^verbatim>\<open>capture_image\<close> has run. A plotted line is its x data
  and its y data. \<open>ax_xlim\<close> and \<open>ax_ylim\<close> are the limits of the image axes, which
  the zoom tool of the toolbar changes; \<open>cam_exposure\<close> is the exposure time last sent
  to the camera; \<open>printed\<close> is what \<^verbatim>\<open>print\<close> wrote; \<open>files\<close> is the disk.
\<close>

record state =
  AOI :: AOI_rect
  ax_xlim :: "real \<times> real"
  ax_ylim :: "real \<times> real"
  run_stream :: bool
  backgroundImage :: "ndarray option"
  continuous :: nat
  waistListX :: "fl list"
  waistListY :: "fl list"
  image_data :: ndarray
  imdata_full :: "ndarray option"
  imdata :: ndarray
  hdata :: "int list"
  vdata :: "int list"
  hplot :: "nat list \<times> int list"
  vplot :: "nat list \<times> int list"
  hintplot :: "nat list \<times> fl list"
  vintplot :: "nat list \<times> fl list"
  hintfit :: "nat list \<times> fl list"
  vintfit :: "nat list \<times> fl list"
  wxplot :: "nat list \<times> fl list"
  wyplot :: "nat list \<times> fl list"
  waistTextBox :: message
  cam_exposure :: fl
  printed :: "exn list"
  files :: "string \<rightharpoonup> png"

section \<open>The handlers\<close>

text \<open>\<^verbatim>\<open>recordBackground\<close>: the frame the camera returns becomes the background.\<close>

definition recordBackground :: "ndarray \<Rightarrow> state \<Rightarrow> state" where
  "recordBackground frame s = s\<lparr>backgroundImage := Some frame\<rparr>"

definition toggleContinuousMode :: "state \<Rightarrow> state" where
  "toggleContinuousMode s = s\<lparr>continuous := (continuous s + 1) mod 2\<rparr>"

text \<open>
  \<^verbatim>\<open>On_exposure_change\<close>, with the value of the slider (which Qt keeps between its
  minimum 1 and its maximum 100): \<^verbatim>\<open>0.037 * 10 ** (value / 23)\<close>, a true division.
\<close>

definition new_exposure :: "int \<Rightarrow> fl" where
  "new_exposure v = fmul lit_0_037 (fpow10 (fdiv (f_of_int v) (Fin 23)))"

definition On_exposure_change :: "int \<Rightarrow> state \<Rightarrow> state" where
  "On_exposure_change v s = s\<lparr>cam_exposure := new_exposure v\<rparr>"

definition On_reset_AOI :: "state \<Rightarrow> state" where
  "On_reset_AOI s =
     s\<lparr>AOI := \<lparr>xmin = 0, xmax = 1280, ymin = 0, ymax = 1024\<rparr>,
       ax_xlim := (0, 1280), ax_ylim := (0, 1024)\<rparr>"

text \<open>
  \<^verbatim>\<open>On_set_AOI\<close>:
  \<^verbatim>\<open>AOI.ymin,AOI.ymax = self.ax.get_ylim()\<close> and
  \<^verbatim>\<open>AOI.xmin,AOI.xmax = self.ax.get_xlim()\<close>.
\<close>

definition On_set_AOI :: "state \<Rightarrow> state" where
  "On_set_AOI s =
     s\<lparr>AOI := \<lparr>xmin = fst (ax_xlim s), xmax = snd (ax_xlim s),
                ymin = fst (ax_ylim s), ymax = snd (ax_ylim s)\<rparr>\<rparr>"

text \<open>The user's zoom: the toolbar gives the axes new limits.\<close>

definition zoom :: "real \<times> real \<Rightarrow> real \<times> real \<Rightarrow> state \<Rightarrow> state" where
  "zoom xl yl s = s\<lparr>ax_xlim := xl, ax_ylim := yl\<rparr>"

subsection \<open>Saving the image\<close>

definition astype_uint8 :: "ndarray \<Rightarrow> png" where
  "astype_uint8 a = map (map word_of_int) (rows a)"

text \<open>\<^verbatim>\<open>fileName[-4:]\<close> and \<^verbatim>\<open>fileName[:-4]\<close>\<close>

definition last4 :: "string \<Rightarrow> string" where
  "last4 f = drop (slice_idx (- 4) (length f)) f"

definition but_last4 :: "string \<Rightarrow> string" where
  "but_last4 f = take (slice_idx (- 4) (length f)) f"

definition img_save :: "png \<Rightarrow> string \<Rightarrow> state \<Rightarrow> state" where
  "img_save img path s = s\<lparr>files := (files s)(path \<mapsto> img)\<rparr>"

text \<open>
  \<^verbatim>\<open>saveFileDialog\<close>, with the file name the dialog returned (empty when the user
  cancelled). Reading \<^verbatim>\<open>self.imdata_full\<close> before the loop has set it is an
  \<^verbatim>\<open>AttributeError\<close>. As in the source, the variable \<open>background\<close> is built and
  the second \<^verbatim>\<open>save\<close> is again of \<open>img\<close>.
\<close>

definition saveFileDialog :: "string \<Rightarrow> state \<Rightarrow> exn + state" where
  "saveFileDialog fileName s =
     (if fileName = [] then Inr s
      else case imdata_full s of
        None \<Rightarrow> Inl AttributeError
      | Some r \<Rightarrow>
          (case np_add r (backgroundImage s) of
             Inl e \<Rightarrow> Inl e
           | Inr t \<Rightarrow>
               let img = astype_uint8 t;
                   s1 = (if last4 fileName = ''.png'' then img_save img fileName s
                         else img_save img (fileName @ ''.png'') s)
               in (case backgroundImage s of
                     None \<Rightarrow> Inr s1
                   | Some b \<Rightarrow>
                       let background = astype_uint8 b
                       in if last4 fileName = ''.png''
                          then Inr (img_save img (but_last4 fileName @ ''-bg.png'') s1)
                          else Inr (img_save img (fileName @ ''-bg.png'') s1))))"

text \<open>The disk after the handler (an exception leaves it as it was).\<close>

definition files_after_save :: "string \<Rightarrow> state \<Rightarrow> string \<rightharpoonup> png" where
  "files_after_save fileName s =
     (case saveFileDialog fileName s of Inl e \<Rightarrow> files s | Inr s' \<Rightarrow> files s')"

section \<open>The waist calculation\<close>

text \<open>
  \<^verbatim>\<open>gaussian\<close> at one point \<open>x\<close> of the axis:
  \<^verbatim>\<open>a = np.abs(a); a * np.exp(-2*((x - x0) / wx) ** 2) + b\<close>.
\<close>

definition gaussian :: "nat \<Rightarrow> fl \<times> fl \<times> fl \<times> fl \<Rightarrow> fl" where
  "gaussian x p =
     (case p of (a, x0, b, wx) \<Rightarrow>
        let q = fdiv (fsub (f_of_int (int x)) x0) wx
        in fadd (fmul (fabs a) (fexp (fmul (Fin (- 2)) (fmul q q)))) b)"

text \<open>
  \<^verbatim>\<open>scipy.optimize.curve_fit(self.gaussian, axis, data, p0=p0)\<close> is not code of this
  program: it is a parameter, any function from the axis, the data and the initial guess
  to the fitted parameters or to the exception it raised.
\<close>

type_synonym fitter =
  "nat list \<Rightarrow> int list \<Rightarrow> fl \<times> fl \<times> fl \<times> fl \<Rightarrow> exn + (fl \<times> fl \<times> fl \<times> fl)"

text \<open>
  The history of waists, lines 396 to 399:
  \<^verbatim>\<open>self.waistListX = np.roll(self.waistListX, 1); self.waistListX[0] = wx * pixel_size\<close>.
  The arrays start as \<^verbatim>\<open>np.zeros(20)\<close> and every update keeps the length, so index
  0 exists.
\<close>

definition waist_init :: "fl list" where
  "waist_init = replicate 20 (Fin 0)"

definition push_waist :: "'a list \<Rightarrow> 'a \<Rightarrow> 'a list" where
  "push_waist buf v = (np_roll 1 buf)[0 := v]"

text \<open>\<^verbatim>\<open>arr *= 255/arr.max()\<close>\<close>

definition scale255 :: "fl list \<Rightarrow> exn + fl list" where
  "scale255 arr =
     (case np_fmax arr of
        Inl e \<Rightarrow> Inl e
      | Inr m \<Rightarrow> Inr (map (\<lambda>v. fmul v (fdiv (Fin 255) m)) arr))"

text \<open>The last entry of the fitted parameters, \<^verbatim>\<open>px[-1]\<close>.\<close>

definition p_last :: "fl \<times> fl \<times> fl \<times> fl \<Rightarrow> fl" where
  "p_last p = (case p of (a, x0, b, wx) \<Rightarrow> wx)"

text \<open>Sequencing: the first exception raised ends the computation.\<close>

definition bind_exn :: "exn + 'a \<Rightarrow> ('a \<Rightarrow> exn + 'b) \<Rightarrow> exn + 'b" where
  "bind_exn m f = (case m of Inl e \<Rightarrow> Inl e | Inr v \<Rightarrow> f v)"

text \<open>
  The initial guess
  \<^verbatim>\<open>(data.max(), data.argmax(), 0, (AOI.max-AOI.min)/5)\<close>, as the floats
  \<^verbatim>\<open>curve_fit\<close> makes of it.
\<close>

definition initial_guess :: "int list \<Rightarrow> real \<Rightarrow> real \<Rightarrow> exn + (fl \<times> fl \<times> fl \<times> fl)" where
  "initial_guess dat lo hi =
     bind_exn (np_max dat) (\<lambda>m.
     bind_exn (np_argmax dat) (\<lambda>k.
       Inr (f_of_int m, f_of_int (int k), Fin 0, fdiv (fsub (Fin hi) (Fin lo)) (Fin 5))))"

text \<open>
  The body of the \<^verbatim>\<open>try\<close> of \<^verbatim>\<open>calc_waists\<close>. Everything that can raise comes
  before the first assignment to a field, so the result is either the exception or the
  new state.
\<close>

definition calc_waists_body :: "fitter \<Rightarrow> state \<Rightarrow> exn + state" where
  "calc_waists_body curve_fit s =
     (let xdata = np_sum0 (imdata s);
          ydata = np_sum1 (imdata s);
          xaxis = [0..<length xdata];
          yaxis = [0..<length ydata]
      in bind_exn (initial_guess xdata (xmin (AOI s)) (xmax (AOI s))) (\<lambda>p0x.
         bind_exn (initial_guess ydata (ymin (AOI s)) (ymax (AOI s))) (\<lambda>p0y.
         bind_exn (curve_fit xaxis xdata p0x) (\<lambda>px.
         bind_exn (curve_fit yaxis ydata p0y) (\<lambda>py.
         bind_exn (scale255 (map (\<lambda>x. gaussian x px) xaxis)) (\<lambda>hfit.
         bind_exn (scale255 (map (\<lambda>y. gaussian y py) yaxis)) (\<lambda>vfit.
           let wx = fabs (p_last px);
               wy = fabs (p_last py)
           in Inr (s\<lparr>hintfit := ([0..<length hfit], hfit),
                     vintfit := ([0..<length vfit], vfit),
                     waistListX := push_waist (waistListX s) (fmul wx pixel_size),
                     waistListY := push_waist (waistListY s) (fmul wy pixel_size),
                     waistTextBox := WaistText (fmul wx pixel_size) (fmul wy pixel_size)\<rparr>))))))))"

text \<open>\<^verbatim>\<open>calc_waists\<close>: \<^verbatim>\<open>except Exception as e: print( e )\<close>.\<close>

definition calc_waists :: "fitter \<Rightarrow> state \<Rightarrow> state" where
  "calc_waists curve_fit s =
     (case calc_waists_body curve_fit s of
        Inl e \<Rightarrow> s\<lparr>printed := printed s @ [e]\<rparr>
      | Inr s' \<Rightarrow> s')"

section \<open>The camera loop\<close>

text \<open>
  \<^verbatim>\<open>get1DIntensity\<close>: the row and the column of \<^verbatim>\<open>self.imdata\<close> through the
  first maximal pixel. The local variable \<^verbatim>\<open>oneDIntensity\<close> is assigned by two
  separate \<^verbatim>\<open>if\<close> statements and is unbound when neither applies.
\<close>

definition get1DIntensity :: "ndarray \<Rightarrow> string \<Rightarrow> exn + (int list \<times> (nat \<times> nat))" where
  "get1DIntensity im axis =
     (case np_argmax (ravel im) of
        Inl e \<Rightarrow> Inl e
      | Inr maxIndex \<Rightarrow>
          (case unravel_index maxIndex (nrows im, ncols im) of
             (maxYIndex, maxXIndex) \<Rightarrow>
               let oneDIntensity =
                     (if axis = ''v'' then Some (map (\<lambda>r. r ! maxXIndex) (rows im)) else None);
                   oneDIntensity =
                     (if axis = ''h'' then Some (rows im ! maxYIndex) else oneDIntensity)
               in (case oneDIntensity of
                     None \<Rightarrow> Inl UnboundLocalError
                   | Some d \<Rightarrow> Inr (d, (maxYIndex, maxXIndex)))))"

text \<open>
  One pass of the \<^verbatim>\<open>while self.run_stream\<close> loop of \<^verbatim>\<open>capture_image\<close>, on the
  frame the camera returned. The loop has no handler: an exception ends the thread, and
  the fields assigned before it keep their new values. A step returns the exception, if
  any, and the state it left.
\<close>

type_synonym step = "state \<Rightarrow> exn option \<times> state"

definition and_then :: "step \<Rightarrow> step \<Rightarrow> step" where
  "and_then f g s = (case f s of (Some e, s') \<Rightarrow> (Some e, s') | (None, s') \<Rightarrow> g s')"

text \<open>Lines 313 to 316.\<close>

definition step_residual :: "ndarray \<Rightarrow> step" where
  "step_residual frame s =
     (case np_sub frame (backgroundImage s) of
        Inl e \<Rightarrow> (Some e, s)
      | Inr r \<Rightarrow>
          let s1 = s\<lparr>imdata_full := Some r, image_data := r\<rparr>
          in (case np_argmax (ravel r) of
                Inl e \<Rightarrow> (Some e, s1)
              | Inr maxIndex \<Rightarrow> (None, s1)))"

text \<open>Line 317.\<close>

definition step_crop :: step where
  "step_crop s =
     (case imdata_full s of
        None \<Rightarrow> (Some AttributeError, s)
      | Some r \<Rightarrow>
          (None, s\<lparr>imdata := crop (py_int (ymin (AOI s))) (py_int (ymax (AOI s)))
                                  (py_int (xmin (AOI s))) (py_int (xmax (AOI s))) r\<rparr>))"

text \<open>Lines 318 to 324.\<close>

definition step_curves :: step where
  "step_curves s =
     (case get1DIntensity (imdata s) ''h'' of
        Inl e \<Rightarrow> (Some e, s)
      | Inr (h, _) \<Rightarrow>
          let s1 = s\<lparr>hdata := h\<rparr>
          in (case get1DIntensity (imdata s1) ''v'' of
                Inl e \<Rightarrow> (Some e, s1)
              | Inr (v, _) \<Rightarrow>
                  let s2 = s1\<lparr>vdata := v\<rparr>
                  in (None, s2\<lparr>hplot := ([0..<length (hdata s2)], hdata s2),
                               vplot := ([0..<length (vdata s2)], vdata s2)\<rparr>)))"

text \<open>Lines 326 to 335.\<close>

definition step_projections :: step where
  "step_projections s =
     (let vint = map f_of_int (np_sum1 (imdata s));
          hint = map f_of_int (np_sum0 (imdata s))
      in case scale255 vint of
           Inl e \<Rightarrow> (Some e, s)
         | Inr vint' \<Rightarrow>
             (case scale255 hint of
                Inl e \<Rightarrow> (Some e, s)
              | Inr hint' \<Rightarrow>
                  (None, s\<lparr>hintplot := ([0..<length hint'], hint'),
                           vintplot := ([0..<length vint'], vint')\<rparr>)))"

text \<open>Lines 337 to 340.\<close>

definition step_waistplot :: step where
  "step_waistplot s =
     (None, s\<lparr>wxplot := ([0..<length (waistListX s)], waistListX s),
              wyplot := ([0..<length (waistListY s)], waistListY s)\<rparr>)"

text \<open>Lines 345 and 346.\<close>

definition step_fit :: "fitter \<Rightarrow> step" where
  "step_fit curve_fit s =
     (if continuous s = 1 then (None, calc_waists curve_fit s) else (None, s))"

definition loop_body :: "fitter \<Rightarrow> ndarray \<Rightarrow> step" where
  "loop_body curve_fit frame =
     and_then (step_residual frame)
       (and_then step_crop
         (and_then step_curves
           (and_then step_projections
             (and_then step_waistplot (step_fit curve_fit)))))"

text \<open>The loop, on the frames the camera returns one after the other.\<close>

fun capture_image :: "fitter \<Rightarrow> ndarray list \<Rightarrow> step" where
  "capture_image curve_fit [] s = (None, s)"
| "capture_image curve_fit (frame # frames) s =
     (if run_stream s
      then case loop_body curve_fit frame s of
             (Some e, s') \<Rightarrow> (Some e, s')
           | (None, s') \<Rightarrow> capture_image curve_fit frames s'
      else (None, s))"

text \<open>
  The state in which the loop starts: \<^verbatim>\<open>__init__\<close> and the part of
  \<^verbatim>\<open>capture_image\<close> before the loop, on the first frame of the camera.
\<close>

definition start_state :: "ndarray \<Rightarrow> exn + state" where
  "start_state frame =
     bind_exn (get1DIntensity frame ''h'') (\<lambda>h.
     bind_exn (get1DIntensity frame ''v'') (\<lambda>v.
       Inr \<lparr>AOI = \<lparr>xmin = 0, xmax = 1280, ymin = 0, ymax = 1024\<rparr>,
            ax_xlim = (0, 1280), ax_ylim = (0, 1024),
            run_stream = True,
            backgroundImage = None,
            continuous = 0,
            waistListX = waist_init, waistListY = waist_init,
            image_data = frame,
            imdata_full = None,
            imdata = frame,
            hdata = fst h, vdata = fst v,
            hplot = ([0..<length (fst h)], fst h),
            vplot = ([0..<length (fst v)], fst v),
            hintplot = ([0..<ncols frame], replicate (ncols frame) (Fin 0)),
            vintplot = ([0..<nrows frame], map f_of_int (np_sum1 frame)),
            hintfit = ([0..<ncols frame], replicate (ncols frame) (Fin 0)),
            vintfit = ([0..<nrows frame], replicate (nrows frame) (Fin 0)),
            wxplot = ([0..<length waist_init], waist_init),
            wyplot = ([0..<length waist_init], waist_init),
            waistTextBox = NoText,
            cam_exposure = new_exposure 50,
            printed = [],
            files = Map.empty\<rparr>))"

section \<open>The invariant of the specification and example inputs\<close>

text \<open>
  The specification's invariant of an AOI rectangle on a sensor of the given width and
  height: \<open>0 \<le> xmin < xmax \<le> width\<close> and \<open>0 \<le> ymin < ymax \<le> height\<close>. It is
  written from the specification; the program has no such check.
\<close>

definition spec_aoi_valid :: "nat \<Rightarrow> nat \<Rightarrow> AOI_rect \<Rightarrow> bool" where
  "spec_aoi_valid w h r =
     (0 \<le> xmin r \<and> xmin r < xmax r \<and> xmax r \<le> real w \<and>
      0 \<le> ymin r \<and> ymin r < ymax r \<and> ymax r \<le> real h)"

text \<open>
  The specification's AOI is in sensor pixels: the four bounds are whole numbers. (The
  program stores whatever floats the axes have and truncates them with \<^verbatim>\<open>int\<close>
  when it crops.)
\<close>

definition integral_aoi :: "AOI_rect \<Rightarrow> bool" where
  "integral_aoi r = (xmin r \<in> \<int> \<and> xmax r \<in> \<int> \<and> ymin r \<in> \<int> \<and> ymax r \<in> \<int>)"

text \<open>
  The frames are rectangular, and the background, when one has been recorded, is a
  frame of the same camera: it has the shape of the frame \<open>F\<close>.
\<close>

definition background_fits :: "ndarray \<Rightarrow> state \<Rightarrow> bool" where
  "background_fits F s =
     (case backgroundImage s of
        None \<Rightarrow> True
      | Some B \<Rightarrow> shape_ok B \<and> nrows B = nrows F \<and> ncols B = ncols F)"

text \<open>A small frame, a background of the same shape, and the state the loop starts in on that frame.\<close>

definition demo_frame :: ndarray where
  "demo_frame = NDArray 3 [[1, 2, 3], [4, 9, 6]]"

definition demo_background :: ndarray where
  "demo_background = NDArray 3 [[1, 1, 1], [2, 2, 7]]"

definition demo_state :: state where
  "demo_state =
     \<lparr>AOI = \<lparr>xmin = 0, xmax = 1280, ymin = 0, ymax = 1024\<rparr>,
      ax_xlim = (0, 1280), ax_ylim = (0, 1024),
      run_stream = True,
      backgroundImage = None,
      continuous = 0,
      waistListX = waist_init, waistListY = waist_init,
      image_data = demo_frame,
      imdata_full = None,
      imdata = demo_frame,
      hdata = [4, 9, 6], vdata = [2, 9],
      hplot = ([0, 1, 2], [4, 9, 6]),
      vplot = ([0, 1], [2, 9]),
      hintplot = ([0, 1, 2], [Fin 0, Fin 0, Fin 0]),
      vintplot = ([0, 1], [f_of_int 6, f_of_int 19]),
      hintfit = ([0, 1, 2], [Fin 0, Fin 0, Fin 0]),
      vintfit = ([0, 1], [Fin 0, Fin 0]),
      wxplot = ([0..<20], waist_init),
      wyplot = ([0..<20], waist_init),
      waistTextBox = NoText,
      cam_exposure = new_exposure 50,
      printed = [],
      files = Map.empty\<rparr>"


text \<open>The state after the background has been recorded and the loop has run once.\<close>

definition demo_running :: state where
  "demo_running =
     snd (loop_body (\<lambda>axis dat p0. Inl RuntimeError) demo_frame
            (recordBackground demo_background demo_state))"

text \<open>The starting state after the user has zoomed to columns 1 to 3 and set the AOI.\<close>

definition demo_zoomed :: state where
  "demo_zoomed = On_set_AOI (zoom (1, 3) (0, 2) demo_state)"

text \<open>
  The starting state after a zoom to x from 0.75 to 2.875, and after a zoom to x from
  0.25 to 0.875, each made the AOI: the floats of the axes are stored as they are.
\<close>

definition demo_fractional :: state where
  "demo_fractional = On_set_AOI (zoom (3 / 4, 23 / 8) (0, 2) demo_state)"


text \<open>A fitter that never converges.\<close>

definition failing_fit :: fitter where
  "failing_fit axis dat p0 = Inl RuntimeError"

text \<open>A fitter whose fitted width is -10 pixels on every input.\<close>

definition ten_fit :: fitter where
  "ten_fit axis dat p0 = Inr (Fin 200, Fin 1, Fin 5, Fin (- 10))"

section \<open>The history of waists\<close>

lemma np_roll_one: "xs \<noteq> [] \<Longrightarrow> np_roll (Suc 0) xs = last xs # butlast xs"
proof -
  assume ne: "xs \<noteq> []"
  then have len: "0 < length xs" by simp
  show ?thesis
  proof (cases "length xs = 1")
    case True
    then obtain x where "xs = [x]" by (cases xs) auto
    then show ?thesis by (simp add: np_roll_def)
  next
    case False
    with len have "Suc 0 mod length xs = Suc 0" by simp
    moreover have "drop (length xs - Suc 0) xs = [last xs]"
      using ne by (metis One_nat_def append_butlast_last_id append_eq_conv_conj length_butlast)
    moreover have "take (length xs - Suc 0) xs = butlast xs"
      by (simp add: butlast_conv_take)
    ultimately show ?thesis using ne by (simp add: np_roll_def Let_def)
  qed
qed

lemma push_waist_cons: "buf \<noteq> [] \<Longrightarrow> push_waist buf v = v # butlast buf"
  by (simp add: push_waist_def np_roll_one)

lemma push_waist_length: "length (push_waist buf v) = length buf"
  by (cases "buf = []") (simp_all add: push_waist_def np_roll_def Let_def)

lemma push_waist_take: "length buf = n \<Longrightarrow> 0 < n \<Longrightarrow> push_waist buf v = take n (v # buf)"
  by (cases buf rule: rev_cases) (auto simp add: push_waist_cons)

lemma take_append_take: "take n (xs @ take n ys) = take n (xs @ ys)"
  by (simp add: min_def)

lemma foldl_push_waist:
  "length buf = n \<Longrightarrow> 0 < n \<Longrightarrow> foldl push_waist buf vs = take n (rev vs @ buf)"
proof (induction vs arbitrary: buf)
  case Nil
  then show ?case by simp
next
  case (Cons v vs)
  have "foldl push_waist (push_waist buf v) vs = take n (rev vs @ push_waist buf v)"
    using Cons.prems by (intro Cons.IH) (simp_all add: push_waist_length)
  also have "\<dots> = take n (rev vs @ take n (v # buf))"
    using Cons.prems by (simp only: push_waist_take)
  also have "\<dots> = take n (rev vs @ v # buf)"
    by (rule take_append_take)
  finally show ?case by simp
qed

text \<open>
  C2. A push into a waist history of 20 entries puts the new value at index 0 and moves
  every other entry one place back, dropping the last one; the length stays 20. After any
  list of pushes into the initial all-zero history the buffer is the 20 newest values,
  newest first; after the 25 values \<open>v1\<close> to \<open>v25\<close> it is \<open>v25\<close> down to \<open>v6\<close>.
\<close>

theorem history_push:
  "(length buf = 20 \<longrightarrow>
      length (push_waist buf v) = 20 \<and> push_waist buf v ! 0 = v \<and>
      (\<forall>i<19. push_waist buf v ! Suc i = buf ! i))
   \<and> length (foldl push_waist waist_init vs) = 20
   \<and> foldl push_waist waist_init vs = take 20 (rev vs @ waist_init)
   \<and> foldl push_waist waist_init
        [v1, v2, v3, v4, v5, v6, v7, v8, v9, v10, v11, v12, v13, v14, v15, v16, v17, v18, v19,
         v20, v21, v22, v23, v24, v25]
      = [v25, v24, v23, v22, v21, v20, v19, v18, v17, v16, v15, v14, v13, v12, v11, v10, v9,
         v8, v7, v6]"
proof -
  have len0: "length waist_init = 20" by (simp add: waist_init_def)
  have gen: "foldl push_waist waist_init ws = take 20 (rev ws @ waist_init)" for ws
    using foldl_push_waist [OF len0] by simp
  have a: "length buf = 20 \<longrightarrow>
      length (push_waist buf v) = 20 \<and> push_waist buf v ! 0 = v \<and>
      (\<forall>i<19. push_waist buf v ! Suc i = buf ! i)"
  proof
    assume l: "length buf = 20"
    then have "push_waist buf v = take 20 (v # buf)" by (simp add: push_waist_take)
    then have e: "push_waist buf v = v # take 19 buf" by (simp add: take_Cons')
    show "length (push_waist buf v) = 20 \<and> push_waist buf v ! 0 = v \<and>
      (\<forall>i<19. push_waist buf v ! Suc i = buf ! i)"
      using l by (simp add: e)
  qed
  have b: "length (foldl push_waist waist_init vs) = 20"
    by (subst gen) (simp add: len0)
  have c: "foldl push_waist waist_init
        [v1, v2, v3, v4, v5, v6, v7, v8, v9, v10, v11, v12, v13, v14, v15, v16, v17, v18, v19,
         v20, v21, v22, v23, v24, v25]
      = [v25, v24, v23, v22, v21, v20, v19, v18, v17, v16, v15, v14, v13, v12, v11, v10, v9,
         v8, v7, v6]"
    by (subst gen) simp
  show ?thesis by (intro conjI a b c gen)
qed

theorem history_push_witness:
  "length waist_init = 20
   \<and> length (push_waist waist_init (Fin 7)) = 20
   \<and> push_waist waist_init (Fin 7) ! 0 = Fin 7
   \<and> push_waist waist_init (Fin 7) ! Suc 3 = waist_init ! 3
   \<and> foldl push_waist waist_init [Fin 1, Fin 2] = Fin 2 # Fin 1 # replicate 18 (Fin 0)"
proof -
  note h = history_push [of waist_init "Fin 7" "[Fin 1, Fin 2]"]
  have l: "length waist_init = 20" by (simp add: waist_init_def)
  have t: "take 20 (rev [Fin 1, Fin 2] @ waist_init) = Fin 2 # Fin 1 # replicate 18 (Fin 0)"
    by (simp add: waist_init_def)
  from h [THEN conjunct1] l have p:
    "length (push_waist waist_init (Fin 7)) = 20 \<and> push_waist waist_init (Fin 7) ! 0 = Fin 7 \<and>
      (\<forall>i<19. push_waist waist_init (Fin 7) ! Suc i = waist_init ! i)"
    by simp
  from h [THEN conjunct2, THEN conjunct2, THEN conjunct1] t
  have f: "foldl push_waist waist_init [Fin 1, Fin 2] = Fin 2 # Fin 1 # replicate 18 (Fin 0)"
    by (simp only:)
  from p have "\<forall>i<19. push_waist waist_init (Fin 7) ! Suc i = waist_init ! i" by blast
  then have "push_waist waist_init (Fin 7) ! Suc 3 = waist_init ! 3" by (rule allE [of _ 3]) simp
  with l p f show ?thesis by blast
qed


section \<open>Floating-point facts\<close>

lemma ties_even_err: "\<bar>of_int (ties_even x) - x\<bar> \<le> 1 / 2"
  unfolding ties_even_def Let_def by (auto; linarith)

lemma ties_even_of_int: "ties_even (of_int n) = n"
  by (simp add: ties_even_def)

lemma ulp_exp_eq:
  assumes "2 powr of_int (e + 52) \<le> \<bar>x\<bar>" "\<bar>x\<bar> < 2 powr of_int (e + 53)" "- 1074 \<le> e"
  shows "ulp_exp x = e"
proof -
  have pos: "0 < \<bar>x\<bar>" using assms(1) by (smt (verit) powr_gt_zero)
  have "\<lfloor>log 2 \<bar>x\<bar>\<rfloor> = e + 52"
    using assms(1,2) pos by (subst floor_log_eq_powr_iff) (simp_all add: algebra_simps)
  then show ?thesis using assms(3) by (simp add: ulp_exp_def)
qed

lemma rnd64_by_exp:
  assumes "2 powr of_int (e + 52) \<le> \<bar>x\<bar>" "\<bar>x\<bar> < 2 powr of_int (e + 53)" "- 1074 \<le> e"
  shows "rnd64 x = of_int (ties_even (x / 2 powr of_int e)) * 2 powr of_int e"
proof -
  have "x \<noteq> 0" using assms(1) by (smt (verit) powr_gt_zero)
  then show ?thesis by (simp add: rnd64_def ulp_exp_eq [OF assms])
qed

lemma two_powr_52: "(2::real) powr 52 = 2 ^ 52" "(2::real) powr 53 = 2 ^ 53"
  by simp_all

lemma rnd64_scaled:
  assumes "2 ^ 52 \<le> \<bar>x\<bar> * 2 ^ k" "\<bar>x\<bar> * 2 ^ k < 2 ^ 53" "k \<le> 1074"
  shows "rnd64 x = of_int (ties_even (x * 2 ^ k)) / 2 ^ k"
proof -
  have p: "(2::real) powr of_int (- int k) = 1 / 2 ^ k"
    by (simp add: powr_minus powr_realpow divide_inverse)
  have "(2::real) powr (of_int (- int k) + 52) = 2 powr of_int (- int k) * 2 powr 52"
    by (rule powr_add)
  then have p52: "(2::real) powr of_int (- int k + 52) = 2 ^ 52 / 2 ^ k"
    unfolding two_powr_52 p by simp
  have "(2::real) powr (of_int (- int k) + 53) = 2 powr of_int (- int k) * 2 powr 53"
    by (rule powr_add)
  then have p53: "(2::real) powr of_int (- int k + 53) = 2 ^ 53 / 2 ^ k"
    unfolding two_powr_52 p by simp
  have a: "2 powr of_int (- int k + 52) \<le> \<bar>x\<bar>"
    unfolding p52 using assms(1) by (simp add: field_simps)
  have b: "\<bar>x\<bar> < 2 powr of_int (- int k + 53)"
    unfolding p53 using assms(2) by (simp add: field_simps)
  have c: "- 1074 \<le> - int k" using assms(3) by simp
  have p': "(2::real) powr (- real k) = 1 / 2 ^ k" using p by simp
  show ?thesis using rnd64_by_exp [OF a b c] by (simp add: p')
qed

lemma rnd64_rel_err:
  assumes "2 powr (- 1022) \<le> \<bar>x\<bar>"
  shows "\<bar>rnd64 x - x\<bar> \<le> \<bar>x\<bar> / 2 ^ 53"
proof -
  have pos: "0 < \<bar>x\<bar>" using assms by (smt (verit) powr_gt_zero)
  then have nz: "x \<noteq> 0" by auto
  define l where "l = \<lfloor>log 2 \<bar>x\<bar>\<rfloor>"
  have l1: "2 powr of_int l \<le> \<bar>x\<bar>"
    using pos floor_log_eq_powr_iff [of "\<bar>x\<bar>" 2 l] by (simp add: l_def)
  have "log 2 (2 powr (- 1022)) \<le> log 2 \<bar>x\<bar>" using assms pos by (subst log_le_cancel_iff) simp_all
  then have "- 1022 \<le> log 2 \<bar>x\<bar>" by simp
  then have "- 1022 \<le> l" unfolding l_def by (simp add: le_floor_iff)
  then have e: "ulp_exp x = l - 52" by (simp add: ulp_exp_def l_def)
  define u :: real where "u = 2 powr of_int (l - 52)"
  have upos: "0 < u" by (simp add: u_def)
  have "u * 2 powr 52 = 2 powr (of_int (l - 52) + 52)"
    unfolding u_def by (rule powr_add [symmetric])
  also have "\<dots> = 2 powr of_int l" by simp
  finally have ul: "u * 2 ^ 52 \<le> \<bar>x\<bar>" using l1 unfolding two_powr_52 by simp
  have "rnd64 x - x = (of_int (ties_even (x / u)) - x / u) * u"
    using nz upos by (simp add: rnd64_def e u_def field_simps)
  then have "\<bar>rnd64 x - x\<bar> = \<bar>of_int (ties_even (x / u)) - x / u\<bar> * u"
    using upos by (simp add: abs_mult)
  also have "\<dots> \<le> 1 / 2 * u"
    using ties_even_err [of "x / u"] upos by (intro mult_right_mono) simp_all
  also have "\<dots> \<le> \<bar>x\<bar> / 2 ^ 53" using ul by simp
  finally show ?thesis .
qed

subsection \<open>The literals\<close>

lemma rnd64_0_0052: "rnd64 (52 / 10000) = 5995191823955604 / 2 ^ 60"
  by (subst rnd64_scaled [where k = 60]) (simp_all add: ties_even_def)


lemma fin_eq: "rnd64 x = r \<Longrightarrow> \<bar>r\<bar> < 2 ^ 1024 \<Longrightarrow> fin x = Fin r"
  by (auto simp: fin_def Let_def)

lemma waist_of_10: "fmul (fabs (Fin 10)) pixel_size = Fin (7493989779944505 / 2 ^ 57)"
proof -
  have m: "fmul (fabs (Fin 10)) pixel_size = fin (10 * (5995191823955604 / 2 ^ 60))"
    unfolding pixel_size_def rnd64_0_0052 by (simp add: fmul_def fabs_def)
  have r: "rnd64 (10 * (5995191823955604 / 2 ^ 60)) = 7493989779944505 / 2 ^ 57"
    by (subst rnd64_scaled [where k = 57]) (simp_all add: ties_even_def)
  show ?thesis unfolding m by (rule fin_eq [OF r]) simp
qed

section \<open>The waist calculation, case by case\<close>

lemma bind_exn_Inr: "bind_exn m f = Inr y \<Longrightarrow> \<exists>v. m = Inr v \<and> f v = Inr y"
  by (cases m) (simp_all add: bind_exn_def)

lemma calc_waists_body_Inr:
  assumes "calc_waists_body cf s = Inr s'"
  shows "\<exists>p0x p0y px py hfit vfit.
      cf [0..<length (np_sum0 (imdata s))] (np_sum0 (imdata s)) p0x = Inr px \<and>
      cf [0..<length (np_sum1 (imdata s))] (np_sum1 (imdata s)) p0y = Inr py \<and>
      s' = s\<lparr>hintfit := ([0..<length hfit], hfit),
             vintfit := ([0..<length vfit], vfit),
             waistListX := push_waist (waistListX s) (fmul (fabs (p_last px)) pixel_size),
             waistListY := push_waist (waistListY s) (fmul (fabs (p_last py)) pixel_size),
             waistTextBox := WaistText (fmul (fabs (p_last px)) pixel_size)
                                       (fmul (fabs (p_last py)) pixel_size)\<rparr>"
proof -
  let ?xd = "np_sum0 (imdata s)" and ?yd = "np_sum1 (imdata s)"
  from assms obtain p0x where
    a1: "bind_exn (initial_guess ?yd (ymin (AOI s)) (ymax (AOI s))) (\<lambda>p0y.
         bind_exn (cf [0..<length ?xd] ?xd p0x) (\<lambda>px.
         bind_exn (cf [0..<length ?yd] ?yd p0y) (\<lambda>py.
         bind_exn (scale255 (map (\<lambda>x. gaussian x px) [0..<length ?xd])) (\<lambda>hfit.
         bind_exn (scale255 (map (\<lambda>y. gaussian y py) [0..<length ?yd])) (\<lambda>vfit.
           let wx = fabs (p_last px);
               wy = fabs (p_last py)
           in Inr (s\<lparr>hintfit := ([0..<length hfit], hfit),
                     vintfit := ([0..<length vfit], vfit),
                     waistListX := push_waist (waistListX s) (fmul wx pixel_size),
                     waistListY := push_waist (waistListY s) (fmul wy pixel_size),
                     waistTextBox := WaistText (fmul wx pixel_size) (fmul wy pixel_size)\<rparr>)))))) = Inr s'"
    unfolding calc_waists_body_def Let_def by (blast dest: bind_exn_Inr)
  then obtain p0y px py hfit vfit where
    "cf [0..<length ?xd] ?xd p0x = Inr px" "cf [0..<length ?yd] ?yd p0y = Inr py"
    "Inr (s\<lparr>hintfit := ([0..<length hfit], hfit),
                     vintfit := ([0..<length vfit], vfit),
                     waistListX := push_waist (waistListX s) (fmul (fabs (p_last px)) pixel_size),
                     waistListY := push_waist (waistListY s) (fmul (fabs (p_last py)) pixel_size),
                     waistTextBox := WaistText (fmul (fabs (p_last px)) pixel_size) (fmul (fabs (p_last py)) pixel_size)\<rparr>) = (Inr s' :: exn + state)"
    unfolding Let_def by (blast dest: bind_exn_Inr)
  then show ?thesis by blast
qed

lemma calc_waists_cases:
  "(\<exists>e. calc_waists_body cf s = Inl e \<and> calc_waists cf s = s\<lparr>printed := printed s @ [e]\<rparr>)
   \<or> (\<exists>s'. calc_waists_body cf s = Inr s' \<and> calc_waists cf s = s')"
  by (cases "calc_waists_body cf s") (simp_all add: calc_waists_def)

lemma calc_waists_keeps:
  "imdata_full (calc_waists cf s) = imdata_full s"
  "imdata (calc_waists cf s) = imdata s"
  "backgroundImage (calc_waists cf s) = backgroundImage s"
  "AOI (calc_waists cf s) = AOI s"
  "files (calc_waists cf s) = files s"
  "hdata (calc_waists cf s) = hdata s"
  "vdata (calc_waists cf s) = vdata s"
  "hplot (calc_waists cf s) = hplot s"
  "vplot (calc_waists cf s) = vplot s"
  "hintplot (calc_waists cf s) = hintplot s"
  "vintplot (calc_waists cf s) = vintplot s"
  using calc_waists_cases [of cf s] by (auto dest!: calc_waists_body_Inr)

section \<open>The example inputs\<close>

lemma upt_3: "[0..<3] = [0, 1, 2]" "[0..<2] = [0, 1]"
  by (simp_all add: numeral_3_eq_3 numeral_2_eq_2)

lemma replicate_3: "replicate 3 x = [x, x, x]" "replicate 2 x = [x, x]"
  by (simp_all add: numeral_3_eq_3 numeral_2_eq_2)

lemma demo_get1D:
  "get1DIntensity demo_frame ''h'' = Inr ([4, 9, 6], (1, 1))"
  "get1DIntensity demo_frame ''v'' = Inr ([2, 9], (1, 1))"
  by (simp_all add: get1DIntensity_def demo_frame_def np_argmax_def np_max_def ravel_def
      unravel_index_def nrows_def Let_def)

lemma start_state_demo: "start_state demo_frame = Inr demo_state"
  unfolding start_state_def demo_get1D bind_exn_def
  by (simp add: demo_state_def waist_init_def)
    (simp add: demo_frame_def nrows_def np_sum1_def upt_3 replicate_3)

section \<open>The camera loop, step by step\<close>

lemma snd_and_then:
  "snd (and_then f g s) = (if fst (f s) = None then snd (g (snd (f s))) else snd (f s))"
  by (cases "f s") (auto simp: and_then_def split: option.splits)

lemma fst_and_then:
  "fst (and_then f g s) = (if fst (f s) = None then fst (g (snd (f s))) else fst (f s))"
  by (cases "f s") (auto simp: and_then_def split: option.splits)

lemma step_curves_keeps:
  "imdata_full (snd (step_curves s)) = imdata_full s"
  "imdata (snd (step_curves s)) = imdata s"
  "backgroundImage (snd (step_curves s)) = backgroundImage s"
  "AOI (snd (step_curves s)) = AOI s"
  "files (snd (step_curves s)) = files s"
  by (auto simp: step_curves_def Let_def split: sum.splits prod.splits)

lemma step_projections_keeps:
  "imdata_full (snd (step_projections s)) = imdata_full s"
  "imdata (snd (step_projections s)) = imdata s"
  "backgroundImage (snd (step_projections s)) = backgroundImage s"
  "AOI (snd (step_projections s)) = AOI s"
  "files (snd (step_projections s)) = files s"
  "hdata (snd (step_projections s)) = hdata s"
  "vdata (snd (step_projections s)) = vdata s"
  "hplot (snd (step_projections s)) = hplot s"
  "vplot (snd (step_projections s)) = vplot s"
  by (auto simp: step_projections_def Let_def split: sum.splits)

lemma step_waistplot_keeps:
  "imdata_full (snd (step_waistplot s)) = imdata_full s"
  "imdata (snd (step_waistplot s)) = imdata s"
  "backgroundImage (snd (step_waistplot s)) = backgroundImage s"
  "AOI (snd (step_waistplot s)) = AOI s"
  "files (snd (step_waistplot s)) = files s"
  "hdata (snd (step_waistplot s)) = hdata s"
  "vdata (snd (step_waistplot s)) = vdata s"
  "hplot (snd (step_waistplot s)) = hplot s"
  "vplot (snd (step_waistplot s)) = vplot s"
  "hintplot (snd (step_waistplot s)) = hintplot s"
  "vintplot (snd (step_waistplot s)) = vintplot s"
  by (simp_all add: step_waistplot_def)

lemma step_fit_keeps:
  "imdata_full (snd (step_fit cf s)) = imdata_full s"
  "imdata (snd (step_fit cf s)) = imdata s"
  "backgroundImage (snd (step_fit cf s)) = backgroundImage s"
  "AOI (snd (step_fit cf s)) = AOI s"
  "files (snd (step_fit cf s)) = files s"
  "hdata (snd (step_fit cf s)) = hdata s"
  "vdata (snd (step_fit cf s)) = vdata s"
  "hplot (snd (step_fit cf s)) = hplot s"
  "vplot (snd (step_fit cf s)) = vplot s"
  "hintplot (snd (step_fit cf s)) = hintplot s"
  "vintplot (snd (step_fit cf s)) = vintplot s"
  by (simp_all add: step_fit_def calc_waists_keeps)

lemma step_crop_keeps:
  "imdata_full (snd (step_crop s)) = imdata_full s"
  "backgroundImage (snd (step_crop s)) = backgroundImage s"
  "AOI (snd (step_crop s)) = AOI s"
  "files (snd (step_crop s)) = files s"
  by (simp_all add: step_crop_def split: option.splits)

lemma step_residual_keeps:
  "backgroundImage (snd (step_residual F s)) = backgroundImage s"
  "AOI (snd (step_residual F s)) = AOI s"
  "files (snd (step_residual F s)) = files s"
  by (simp_all add: step_residual_def Let_def split: sum.splits)

lemmas tail_keeps = step_curves_keeps step_projections_keeps step_waistplot_keeps step_fit_keeps

lemma loop_body_keeps:
  "backgroundImage (snd (loop_body cf F s)) = backgroundImage s"
  "AOI (snd (loop_body cf F s)) = AOI s"
  "files (snd (loop_body cf F s)) = files s"
  by (simp_all add: loop_body_def snd_and_then tail_keeps step_crop_keeps step_residual_keeps)

lemma step_residual_Inr:
  "np_sub F (backgroundImage s) = Inr R \<Longrightarrow>
     imdata_full (snd (step_residual F s)) = Some R \<and>
     (fst (step_residual F s) = None) = (ravel R \<noteq> [])"
  by (auto simp: step_residual_def Let_def np_argmax_def np_max_def split: sum.splits list.splits)

lemma loop_body_imdata_full:
  "np_sub F (backgroundImage s) = Inr R \<Longrightarrow> imdata_full (snd (loop_body cf F s)) = Some R"
  by (simp add: loop_body_def snd_and_then tail_keeps step_crop_keeps step_residual_Inr)

lemma loop_body_imdata:
  assumes "np_sub F (backgroundImage s) = Inr R" "ravel R \<noteq> []"
  shows "imdata (snd (loop_body cf F s)) =
     crop (py_int (ymin (AOI s))) (py_int (ymax (AOI s)))
          (py_int (xmin (AOI s))) (py_int (xmax (AOI s))) R"
proof -
  let ?s1 = "snd (step_residual F s)"
  from step_residual_Inr [OF assms(1)] assms(2)
  have r: "imdata_full ?s1 = Some R" "fst (step_residual F s) = None" by simp_all
  have c: "fst (step_crop ?s1) = None"
    "imdata (snd (step_crop ?s1)) =
       crop (py_int (ymin (AOI s))) (py_int (ymax (AOI s)))
            (py_int (xmin (AOI s))) (py_int (xmax (AOI s))) R"
    using r(1) by (simp_all add: step_crop_def step_residual_keeps)
  show ?thesis
    by (simp add: loop_body_def snd_and_then [of "step_residual F"] snd_and_then [of step_crop]
        r c) (simp add: snd_and_then tail_keeps c)
qed

section \<open>Background subtraction and the AOI\<close>

lemma shape_ok_nth: "shape_ok a \<Longrightarrow> i < nrows a \<Longrightarrow> length (rows a ! i) = ncols a"
  by (simp add: shape_ok_def nrows_def list_all_length)

lemma np_sub_same_shape:
  assumes "shape_ok F" "shape_ok B" "nrows B = nrows F" "ncols B = ncols F"
  shows "\<exists>R. np_sub F (Some B) = Inr R \<and> nrows R = nrows F \<and> ncols R = ncols F \<and> shape_ok R \<and>
     (\<forall>i<nrows F. \<forall>j<ncols F. rows R ! i ! j = rows F ! i ! j - rows B ! i ! j)"
proof -
  let ?R = "NDArray (ncols F) (map2 (map2 (\<lambda>v w. v - w)) (rows F) (rows B))"
  have sub: "np_sub F (Some B) = Inr ?R" using assms(3,4) by (simp add: np_sub_def)
  have n: "nrows ?R = nrows F" using assms(3) by (simp add: nrows_def)
  have row: "rows ?R ! i = map2 (\<lambda>v w. v - w) (rows F ! i) (rows B ! i)" if "i < nrows F" for i
    using that assms(3) by (simp add: nrows_def)
  have len: "length (rows F ! i) = ncols F" "length (rows B ! i) = ncols F" if "i < nrows F" for i
    using that assms shape_ok_nth [of F i] shape_ok_nth [of B i] by simp_all
  have ok: "shape_ok ?R"
    unfolding shape_ok_def list_all_length
  proof (intro allI impI)
    fix i assume "i < length (rows ?R)"
    then have i: "i < nrows F" using n by (simp add: nrows_def)
    show "length (rows ?R ! i) = ncols ?R" using row [OF i] len [OF i] by simp
  qed
  have pt: "\<forall>i<nrows F. \<forall>j<ncols F. rows ?R ! i ! j = rows F ! i ! j - rows B ! i ! j"
  proof (intro allI impI)
    fix i j assume i: "i < nrows F" and j: "j < ncols F"
    show "rows ?R ! i ! j = rows F ! i ! j - rows B ! i ! j"
      using row [OF i] len [OF i] j by simp
  qed
  from sub n ok pt show ?thesis by (intro exI [of _ ?R]) simp
qed

lemma ravel_empty_iff: "shape_ok a \<Longrightarrow> (ravel a = []) = (nrows a = 0 \<or> ncols a = 0)"
proof -
  assume ok: "shape_ok a"
  then have "\<forall>r\<in>set (rows a). length r = ncols a" by (simp add: shape_ok_def list_all_iff)
  then show ?thesis
    by (cases "rows a") (auto simp: ravel_def nrows_def)
qed

text \<open>
  C1. For a frame \<open>F\<close> and a recorded background \<open>B\<close> of the same shape, a pass of
  the loop stores as \<^verbatim>\<open>imdata_full\<close> the array of the same shape whose entry at
  every position is the entry of \<open>F\<close> minus the entry of \<open>B\<close>, an integer that may be
  negative (nothing is clamped); the cropped \<^verbatim>\<open>imdata\<close> is then cut out of this
  residual.
\<close>

theorem residual_is_difference:
  assumes "shape_ok F" and "shape_ok B" and "nrows B = nrows F" and "ncols B = ncols F"
    and "backgroundImage s = Some B"
  shows "\<exists>R. imdata_full (snd (loop_body cf F s)) = Some R \<and>
     nrows R = nrows F \<and> ncols R = ncols F \<and>
     (\<forall>i<nrows F. \<forall>j<ncols F. rows R ! i ! j = rows F ! i ! j - rows B ! i ! j) \<and>
     (ravel F \<noteq> [] \<longrightarrow>
        imdata (snd (loop_body cf F s)) =
          crop (py_int (ymin (AOI s))) (py_int (ymax (AOI s)))
               (py_int (xmin (AOI s))) (py_int (xmax (AOI s))) R)"
proof -
  from np_sub_same_shape [OF assms(1-4)] obtain R where
    R: "np_sub F (Some B) = Inr R" "nrows R = nrows F" "ncols R = ncols F" "shape_ok R"
       "\<forall>i<nrows F. \<forall>j<ncols F. rows R ! i ! j = rows F ! i ! j - rows B ! i ! j"
    by blast
  have sub: "np_sub F (backgroundImage s) = Inr R" using R(1) assms(5) by simp
  have e: "(ravel R = []) = (ravel F = [])"
    using ravel_empty_iff [OF R(4)] ravel_empty_iff [OF assms(1)] R(2,3) by simp
  have "ravel F \<noteq> [] \<longrightarrow>
        imdata (snd (loop_body cf F s)) =
          crop (py_int (ymin (AOI s))) (py_int (ymax (AOI s)))
               (py_int (xmin (AOI s))) (py_int (xmax (AOI s))) R"
    using loop_body_imdata [OF sub] e by simp
  with loop_body_imdata_full [OF sub] R(2,3,5) show ?thesis by blast
qed

lemma demo_shapes:
  "shape_ok demo_frame" "shape_ok demo_background"
  "nrows demo_background = nrows demo_frame" "ncols demo_background = ncols demo_frame"
  "nrows demo_frame = 2" "ncols demo_frame = 3" "ravel demo_frame \<noteq> []"
  by (simp_all add: shape_ok_def demo_frame_def demo_background_def nrows_def ravel_def)

lemma demo_np_sub:
  "np_sub demo_frame (Some demo_background) = Inr (NDArray 3 [[0, 1, 2], [2, 7, - 1]])"
  by (simp add: np_sub_def demo_frame_def demo_background_def nrows_def)

theorem residual_is_difference_witness:
  "shape_ok demo_frame \<and> shape_ok demo_background \<and>
   nrows demo_background = nrows demo_frame \<and> ncols demo_background = ncols demo_frame \<and>
   backgroundImage (recordBackground demo_background demo_state) = Some demo_background \<and>
   imdata_full (snd (loop_body failing_fit demo_frame (recordBackground demo_background demo_state)))
     = Some (NDArray 3 [[0, 1, 2], [2, 7, - 1]]) \<and>
   imdata (snd (loop_body failing_fit demo_frame (recordBackground demo_background demo_state)))
     = NDArray 3 [[0, 1, 2], [2, 7, - 1]]"
proof -
  let ?s = "recordBackground demo_background demo_state"
  let ?s' = "snd (loop_body failing_fit demo_frame ?s)"
  have bg: "backgroundImage ?s = Some demo_background" by (simp add: recordBackground_def)
  from residual_is_difference [OF demo_shapes(1-4) bg, of failing_fit] obtain R where
    R: "imdata_full ?s' = Some R"
    and c: "ravel demo_frame \<noteq> [] \<longrightarrow> imdata ?s' =
          crop (py_int (ymin (AOI ?s))) (py_int (ymax (AOI ?s)))
               (py_int (xmin (AOI ?s))) (py_int (xmax (AOI ?s))) R"
    by blast
  have "imdata_full ?s' = Some (NDArray 3 [[0, 1, 2], [2, 7, - 1]])"
    using loop_body_imdata_full [of demo_frame ?s _ failing_fit] demo_np_sub bg by simp
  with R have Req: "R = NDArray 3 [[0, 1, 2], [2, 7, - 1]]" by simp
  have cr: "crop (py_int (ymin (AOI ?s))) (py_int (ymax (AOI ?s)))
               (py_int (xmin (AOI ?s))) (py_int (xmax (AOI ?s))) (NDArray 3 [[0, 1, 2], [2, 7, - 1]])
            = NDArray 3 [[0, 1, 2], [2, 7, - 1]]"
    by (simp add: recordBackground_def demo_state_def crop_def py_int_def slice_len_def
        slice_idx_def py_slice_def)
  from c demo_shapes(7) Req cr have "imdata ?s' = NDArray 3 [[0, 1, 2], [2, 7, - 1]]" by simp
  with R Req bg demo_shapes show ?thesis by simp
qed

text \<open>
  C5, as the program has it. \<^verbatim>\<open>On_set_AOI\<close> stores the limits of the axes as the
  AOI whatever they are: nothing is checked and no request is rejected.
  \<^verbatim>\<open>On_reset_AOI\<close> stores the full rectangle of 1280 by 1024. The counterexample
  is the request of the specification: with the axes at x from -5 to 50 and y from 0 to
  50 the AOI, valid before, becomes that rectangle, which is not valid.
\<close>

theorem On_set_AOI_stores_limits:
  "AOI (On_set_AOI (zoom (x0, x1) (y0, y1) s)) = \<lparr>xmin = x0, xmax = x1, ymin = y0, ymax = y1\<rparr>
   \<and> AOI (On_reset_AOI s) = \<lparr>xmin = 0, xmax = 1280, ymin = 0, ymax = 1024\<rparr>"
  by (simp add: On_set_AOI_def zoom_def On_reset_AOI_def)

theorem On_set_AOI_counterexample:
  "spec_aoi_valid 1280 1024 (AOI demo_state)
   \<and> AOI (On_set_AOI (zoom (- 5, 50) (0, 50) demo_state))
       = \<lparr>xmin = - 5, xmax = 50, ymin = 0, ymax = 50\<rparr>
   \<and> \<not> spec_aoi_valid 1280 1024 (AOI (On_set_AOI (zoom (- 5, 50) (0, 50) demo_state)))
   \<and> AOI (On_set_AOI (zoom (- 5, 50) (0, 50) demo_state)) \<noteq> AOI demo_state"
  by (simp add: On_set_AOI_def zoom_def demo_state_def spec_aoi_valid_def)

section \<open>Failure and success of the waist calculation\<close>

lemma scale255_nonempty: "arr \<noteq> [] \<Longrightarrow> \<exists>r. scale255 arr = Inr r \<and> length r = length arr"
  by (cases arr) (simp_all add: scale255_def np_fmax_def)

lemma initial_guess_Inr: "initial_guess dat lo hi = Inr p \<Longrightarrow> dat \<noteq> []"
  by (auto simp: initial_guess_def bind_exn_def np_max_def split: sum.splits list.splits)

lemma initial_guess_nonempty: "dat \<noteq> [] \<Longrightarrow> \<exists>p. initial_guess dat lo hi = Inr p"
  by (cases dat) (simp_all add: initial_guess_def bind_exn_def np_max_def np_argmax_def)

lemma calc_waists_body_success:
  assumes gx: "initial_guess (np_sum0 (imdata s)) (xmin (AOI s)) (xmax (AOI s)) = Inr p0x"
    and gy: "initial_guess (np_sum1 (imdata s)) (ymin (AOI s)) (ymax (AOI s)) = Inr p0y"
    and fx: "cf [0..<length (np_sum0 (imdata s))] (np_sum0 (imdata s)) p0x = Inr px"
    and fy: "cf [0..<length (np_sum1 (imdata s))] (np_sum1 (imdata s)) p0y = Inr py"
  shows "\<exists>s'. calc_waists_body cf s = Inr s'"
proof -
  from initial_guess_Inr [OF gx] have "map (\<lambda>x. gaussian x px) [0..<length (np_sum0 (imdata s))] \<noteq> []"
    by simp
  from scale255_nonempty [OF this] obtain hf where
    h: "scale255 (map (\<lambda>x. gaussian x px) [0..<length (np_sum0 (imdata s))]) = Inr hf" by blast
  from initial_guess_Inr [OF gy] have "map (\<lambda>x. gaussian x py) [0..<length (np_sum1 (imdata s))] \<noteq> []"
    by simp
  from scale255_nonempty [OF this] obtain vf where
    v: "scale255 (map (\<lambda>x. gaussian x py) [0..<length (np_sum1 (imdata s))]) = Inr vf" by blast
  show ?thesis
    by (simp add: calc_waists_body_def Let_def gx gy fx fy h v bind_exn_def)
qed

lemma any_raise_keeps_state:
  "calc_waists_body cf s = Inl e \<Longrightarrow> calc_waists cf s = s\<lparr>printed := printed s @ [e]\<rparr>"
  by (simp add: calc_waists_def)

lemma fit_raise_is_raise:
  assumes gx: "initial_guess (np_sum0 (imdata s)) (xmin (AOI s)) (xmax (AOI s)) = Inr p0x"
    and gy: "initial_guess (np_sum1 (imdata s)) (ymin (AOI s)) (ymax (AOI s)) = Inr p0y"
    and fails: "cf [0..<length (np_sum0 (imdata s))] (np_sum0 (imdata s)) p0x = Inl e \<or>
       (cf [0..<length (np_sum0 (imdata s))] (np_sum0 (imdata s)) p0x = Inr px \<and>
        cf [0..<length (np_sum1 (imdata s))] (np_sum1 (imdata s)) p0y = Inl e)"
  shows "calc_waists_body cf s = Inl e"
  using fails by (auto simp: calc_waists_body_def Let_def gx gy bind_exn_def)

lemma history_changes_only_after_both_fits:
  assumes "waistListX (calc_waists cf s) \<noteq> waistListX s \<or>
           waistListY (calc_waists cf s) \<noteq> waistListY s"
  shows "\<exists>p0x p0y px py.
      cf [0..<length (np_sum0 (imdata s))] (np_sum0 (imdata s)) p0x = Inr px \<and>
      cf [0..<length (np_sum1 (imdata s))] (np_sum1 (imdata s)) p0y = Inr py"
proof (cases "calc_waists_body cf s")
  case (Inl e)
  then have "calc_waists cf s = s\<lparr>printed := printed s @ [e]\<rparr>" by (simp add: calc_waists_def)
  with assms show ?thesis by simp
next
  case (Inr s')
  from calc_waists_body_Inr [OF Inr] show ?thesis by blast
qed

text \<open>
  C3. When the body of \<^verbatim>\<open>calc_waists\<close> raises an exception, the call returns, the
  exception is printed and every field is as before: the fitted curves, the text of the
  waist box and both histories. A fit that raises, for the first axis or for the second,
  is such an exception. A history differs after the call only if both fits
  returned parameters.
\<close>

theorem calc_waists_recovers:
  "(calc_waists_body cf s = Inl e \<longrightarrow>
      calc_waists cf s = s\<lparr>printed := printed s @ [e]\<rparr> \<and>
      hintfit (calc_waists cf s) = hintfit s \<and> vintfit (calc_waists cf s) = vintfit s \<and>
      waistTextBox (calc_waists cf s) = waistTextBox s \<and>
      waistListX (calc_waists cf s) = waistListX s \<and>
      waistListY (calc_waists cf s) = waistListY s)
   \<and> (initial_guess (np_sum0 (imdata s)) (xmin (AOI s)) (xmax (AOI s)) = Inr p0x \<and>
       initial_guess (np_sum1 (imdata s)) (ymin (AOI s)) (ymax (AOI s)) = Inr p0y \<and>
       (cf [0..<length (np_sum0 (imdata s))] (np_sum0 (imdata s)) p0x = Inl e' \<or>
        (cf [0..<length (np_sum0 (imdata s))] (np_sum0 (imdata s)) p0x = Inr px \<and>
         cf [0..<length (np_sum1 (imdata s))] (np_sum1 (imdata s)) p0y = Inl e'))
       \<longrightarrow> calc_waists_body cf s = Inl e')
   \<and> (waistListX (calc_waists cf s) \<noteq> waistListX s \<or>
       waistListY (calc_waists cf s) \<noteq> waistListY s \<longrightarrow>
       (\<exists>q0x q0y qx qy.
          cf [0..<length (np_sum0 (imdata s))] (np_sum0 (imdata s)) q0x = Inr qx \<and>
          cf [0..<length (np_sum1 (imdata s))] (np_sum1 (imdata s)) q0y = Inr qy))"
proof (intro conjI impI)
  assume "calc_waists_body cf s = Inl e"
  then have "calc_waists cf s = s\<lparr>printed := printed s @ [e]\<rparr>" by (rule any_raise_keeps_state)
  then show "calc_waists cf s = s\<lparr>printed := printed s @ [e]\<rparr>"
    "hintfit (calc_waists cf s) = hintfit s" "vintfit (calc_waists cf s) = vintfit s"
    "waistTextBox (calc_waists cf s) = waistTextBox s"
    "waistListX (calc_waists cf s) = waistListX s"
    "waistListY (calc_waists cf s) = waistListY s"
    by simp_all
next
  assume "initial_guess (np_sum0 (imdata s)) (xmin (AOI s)) (xmax (AOI s)) = Inr p0x \<and>
       initial_guess (np_sum1 (imdata s)) (ymin (AOI s)) (ymax (AOI s)) = Inr p0y \<and>
       (cf [0..<length (np_sum0 (imdata s))] (np_sum0 (imdata s)) p0x = Inl e' \<or>
        (cf [0..<length (np_sum0 (imdata s))] (np_sum0 (imdata s)) p0x = Inr px \<and>
         cf [0..<length (np_sum1 (imdata s))] (np_sum1 (imdata s)) p0y = Inl e'))"
  then show "calc_waists_body cf s = Inl e'" by (blast intro: fit_raise_is_raise)
next
  assume "waistListX (calc_waists cf s) \<noteq> waistListX s \<or>
       waistListY (calc_waists cf s) \<noteq> waistListY s"
  then show "\<exists>q0x q0y qx qy.
          cf [0..<length (np_sum0 (imdata s))] (np_sum0 (imdata s)) q0x = Inr qx \<and>
          cf [0..<length (np_sum1 (imdata s))] (np_sum1 (imdata s)) q0y = Inr qy"
    by (rule history_changes_only_after_both_fits)
qed

lemma demo_sums:
  "np_sum0 (imdata demo_state) = [5, 11, 9]" "np_sum1 (imdata demo_state) = [6, 19]"
  by (simp_all add: demo_state_def demo_frame_def np_sum0_def np_sum1_def upt_3)

lemma demo_guess:
  "initial_guess (np_sum0 (imdata demo_state)) (xmin (AOI demo_state)) (xmax (AOI demo_state))
     = Inr (f_of_int 11, f_of_int 1, Fin 0, fdiv (fsub (Fin 1280) (Fin 0)) (Fin 5))"
  "initial_guess (np_sum1 (imdata demo_state)) (ymin (AOI demo_state)) (ymax (AOI demo_state))
     = Inr (f_of_int 19, f_of_int 1, Fin 0, fdiv (fsub (Fin 1024) (Fin 0)) (Fin 5))"
  unfolding demo_sums
  by (simp_all add: initial_guess_def bind_exn_def np_max_def np_argmax_def demo_state_def)

lemma demo_ten_fit:
  "\<exists>hf vf. calc_waists ten_fit demo_state =
     demo_state\<lparr>hintfit := ([0..<length hf], hf), vintfit := ([0..<length vf], vf),
       waistListX := push_waist waist_init (Fin (7493989779944505 / 2 ^ 57)),
       waistListY := push_waist waist_init (Fin (7493989779944505 / 2 ^ 57)),
       waistTextBox := WaistText (Fin (7493989779944505 / 2 ^ 57))
                                 (Fin (7493989779944505 / 2 ^ 57))\<rparr>"
proof -
  have "\<exists>s'. calc_waists_body ten_fit demo_state = Inr s'"
    by (rule calc_waists_body_success [OF demo_guess]) (simp_all add: ten_fit_def)
  then obtain s' where s': "calc_waists_body ten_fit demo_state = Inr s'" by blast
  have w: "fmul (fabs (p_last (Fin 200, Fin 1, Fin 5, Fin (- 10)))) pixel_size
      = Fin (7493989779944505 / 2 ^ 57)"
    using waist_of_10 by (simp add: p_last_def fabs_def)
  have l: "waistListX demo_state = waist_init" "waistListY demo_state = waist_init"
    by (simp_all add: demo_state_def)
  from calc_waists_body_Inr [OF s'] obtain p0x p0y px py hf vf where
    fx: "ten_fit [0..<length (np_sum0 (imdata demo_state))] (np_sum0 (imdata demo_state)) p0x = Inr px"
    and fy: "ten_fit [0..<length (np_sum1 (imdata demo_state))] (np_sum1 (imdata demo_state)) p0y = Inr py"
    and e: "s' = demo_state\<lparr>hintfit := ([0..<length hf], hf),
             vintfit := ([0..<length vf], vf),
             waistListX := push_waist (waistListX demo_state) (fmul (fabs (p_last px)) pixel_size),
             waistListY := push_waist (waistListY demo_state) (fmul (fabs (p_last py)) pixel_size),
             waistTextBox := WaistText (fmul (fabs (p_last px)) pixel_size)
                                       (fmul (fabs (p_last py)) pixel_size)\<rparr>"
    by blast
  from fx fy have p: "px = (Fin 200, Fin 1, Fin 5, Fin (- 10))" "py = (Fin 200, Fin 1, Fin 5, Fin (- 10))"
    by (simp_all add: ten_fit_def)
  have "calc_waists ten_fit demo_state = s'" by (simp add: calc_waists_def s')
  with e show ?thesis unfolding p w l by blast
qed

lemma waist_init_Cons: "waist_init = Fin 0 # replicate 19 (Fin 0)"
  by (simp add: waist_init_def numeral_eq_Suc)

theorem calc_waists_recovers_witness:
  "calc_waists_body failing_fit demo_state = Inl RuntimeError
   \<and> calc_waists failing_fit demo_state = demo_state\<lparr>printed := [RuntimeError]\<rparr>
   \<and> hintfit (calc_waists failing_fit demo_state) = hintfit demo_state
   \<and> vintfit (calc_waists failing_fit demo_state) = vintfit demo_state
   \<and> waistTextBox (calc_waists failing_fit demo_state) = NoText
   \<and> waistListX (calc_waists failing_fit demo_state) = waist_init
   \<and> waistListY (calc_waists failing_fit demo_state) = waist_init
   \<and> waistListX (calc_waists ten_fit demo_state) \<noteq> waistListX demo_state
   \<and> (\<exists>q0x q0y qx qy.
        ten_fit [0..<length (np_sum0 (imdata demo_state))] (np_sum0 (imdata demo_state)) q0x = Inr qx \<and>
        ten_fit [0..<length (np_sum1 (imdata demo_state))] (np_sum1 (imdata demo_state)) q0y = Inr qy)"
proof -
  note t = calc_waists_recovers
  have f: "failing_fit [0..<length (np_sum0 (imdata demo_state))] (np_sum0 (imdata demo_state))
      (f_of_int 11, f_of_int 1, Fin 0, fdiv (fsub (Fin 1280) (Fin 0)) (Fin 5)) = Inl RuntimeError"
    by (simp add: failing_fit_def)
  from t [of failing_fit demo_state, THEN conjunct2, THEN conjunct1, rule_format,
      OF conjI [OF demo_guess(1) conjI [OF demo_guess(2) disjI1 [OF f]]]]
  have b: "calc_waists_body failing_fit demo_state = Inl RuntimeError" .
  from t [of failing_fit demo_state RuntimeError, THEN conjunct1, rule_format, OF b]
  have k: "calc_waists failing_fit demo_state = demo_state\<lparr>printed := printed demo_state @ [RuntimeError]\<rparr>"
    "hintfit (calc_waists failing_fit demo_state) = hintfit demo_state"
    "vintfit (calc_waists failing_fit demo_state) = vintfit demo_state"
    "waistTextBox (calc_waists failing_fit demo_state) = waistTextBox demo_state"
    "waistListX (calc_waists failing_fit demo_state) = waistListX demo_state"
    "waistListY (calc_waists failing_fit demo_state) = waistListY demo_state"
    by simp_all
  have d: "printed demo_state = []" "waistTextBox demo_state = NoText"
    "waistListX demo_state = waist_init" "waistListY demo_state = waist_init"
    by (simp_all add: demo_state_def)
  have "hd (push_waist waist_init (Fin (7493989779944505 / 2 ^ 57))) \<noteq> hd waist_init"
    by (simp add: push_waist_cons waist_init_Cons)
  then have "push_waist waist_init (Fin (7493989779944505 / 2 ^ 57)) \<noteq> waist_init"
    by auto
  with demo_ten_fit d have c: "waistListX (calc_waists ten_fit demo_state) \<noteq> waistListX demo_state"
    by auto
  from t [of ten_fit demo_state, THEN conjunct2, THEN conjunct2, rule_format, OF disjI1 [OF c]]
  have "\<exists>q0x q0y qx qy.
        ten_fit [0..<length (np_sum0 (imdata demo_state))] (np_sum0 (imdata demo_state)) q0x = Inr qx \<and>
        ten_fit [0..<length (np_sum1 (imdata demo_state))] (np_sum1 (imdata demo_state)) q0y = Inr qy" .
  with b k c show ?thesis unfolding d by simp
qed

section \<open>The reported waist\<close>




section \<open>Saving the image\<close>

lemma map2_add_sub: "length xs = length ys \<Longrightarrow>
  map2 (\<lambda>v w. v + w) (map2 (\<lambda>v w. v - w) xs ys) ys = (xs :: int list)"
  by (induction xs ys rule: list_induct2) simp_all

lemma rows_add_sub:
  "length xs = length ys \<Longrightarrow> (\<forall>i<length xs. length (xs ! i) = length (ys ! i)) \<Longrightarrow>
   map2 (map2 (\<lambda>v w. v + w)) (map2 (map2 (\<lambda>v w. v - w)) xs ys) ys = (xs :: int list list)"
proof (induction xs ys rule: list_induct2)
  case Nil
  then show ?case by simp
next
  case (Cons x xs y ys)
  from Cons.prems have h: "length x = length y" by auto
  from Cons.prems have t: "\<forall>i<length xs. length (xs ! i) = length (ys ! i)" by auto
  show ?case using Cons.IH [OF t] by (simp add: map2_add_sub [OF h])
qed

lemma np_add_np_sub:
  assumes "shape_ok F" "shape_ok B" "np_sub F (Some B) = Inr R"
  shows "np_add R (Some B) = Inr F"
proof -
  from assms(3) have sh: "nrows B = nrows F" "ncols B = ncols F"
    and R: "R = NDArray (ncols F) (map2 (map2 (\<lambda>v w. v - w)) (rows F) (rows B))"
    by (auto simp: np_sub_def split: if_splits)
  have l: "length (rows F) = length (rows B)" using sh by (simp add: nrows_def)
  have "\<forall>i<length (rows F). length (rows F ! i) = length (rows B ! i)"
    using shape_ok_nth [OF assms(1)] shape_ok_nth [OF assms(2)] sh by (simp add: nrows_def)
  from rows_add_sub [OF l this]
  have "map2 (map2 (\<lambda>v w. v + w)) (rows R) (rows B) = rows F" by (simp add: R)
  moreover have "nrows R = nrows F" "ncols R = ncols F" using l by (simp_all add: R nrows_def)
  ultimately show ?thesis using sh by (cases F) (simp add: np_add_def)
qed

lemma np_add_np_sub_None: "np_sub F None = Inr R \<Longrightarrow> np_add R None = Inr F"
  by (cases F) (auto simp: np_sub_def np_add_def)

text \<open>
  C6, as the program has it. \<^verbatim>\<open>saveFileDialog\<close> writes to the chosen path (with
  \<^verbatim>\<open>.png\<close> appended when the name does not end in it) the current residual plus the
  current background, converted to 8 bits: when the background is the one that was
  subtracted, this is the camera frame itself, not the residual. When a background has
  been recorded, a second file, named with \<^verbatim>\<open>-bg.png\<close>, is written beside it.
\<close>

theorem save_writes_frame:
  assumes "fileName \<noteq> []" and "imdata_full s = Some r"
    and "np_add r (backgroundImage s) = Inr t"
  shows "\<exists>s'. saveFileDialog fileName s = Inr s' \<and>
     files s' (if last4 fileName = ''.png'' then fileName else fileName @ ''.png'')
       = Some (astype_uint8 t) \<and>
     (backgroundImage s \<noteq> None \<longrightarrow>
        (if last4 fileName = ''.png'' then but_last4 fileName @ ''-bg.png''
         else fileName @ ''-bg.png'') \<in> dom (files s')) \<and>
     (\<forall>F B. shape_ok F \<and> shape_ok B \<and> backgroundImage s = Some B \<and> np_sub F (Some B) = Inr r
        \<longrightarrow> t = F) \<and>
     (\<forall>F. backgroundImage s = None \<and> np_sub F None = Inr r \<longrightarrow> t = F)"
proof -
  have a: "\<forall>F B. shape_ok F \<and> shape_ok B \<and> backgroundImage s = Some B \<and> np_sub F (Some B) = Inr r
        \<longrightarrow> t = F"
    using assms(3) by (auto dest: np_add_np_sub)
  have b: "\<forall>F. backgroundImage s = None \<and> np_sub F None = Inr r \<longrightarrow> t = F"
    using assms(3) by (auto dest: np_add_np_sub_None)
  show ?thesis
  proof (cases "backgroundImage s")
    case None
    then show ?thesis using assms a b
      by (auto simp: saveFileDialog_def img_save_def Let_def)
  next
    case (Some B)
    then show ?thesis using assms a b
      by (auto simp: saveFileDialog_def img_save_def Let_def)
  qed
qed

lemma demo_running_fields:
  "imdata_full demo_running = Some (NDArray 3 [[0, 1, 2], [2, 7, - 1]])"
  "backgroundImage demo_running = Some demo_background"
  "files demo_running = Map.empty"
proof -
  let ?s = "recordBackground demo_background demo_state"
  have bg: "backgroundImage ?s = Some demo_background" by (simp add: recordBackground_def)
  show "imdata_full demo_running = Some (NDArray 3 [[0, 1, 2], [2, 7, - 1]])"
    unfolding demo_running_def
    by (rule loop_body_imdata_full) (simp add: bg demo_np_sub)
  show "backgroundImage demo_running = Some demo_background"
    unfolding demo_running_def by (simp add: loop_body_keeps bg)
  show "files demo_running = Map.empty"
    unfolding demo_running_def
    by (simp add: loop_body_keeps recordBackground_def demo_state_def)
qed

lemma demo_np_add:
  "np_add (NDArray 3 [[0, 1, 2], [2, 7, - 1]]) (Some demo_background) = Inr demo_frame"
  by (simp add: np_add_def demo_frame_def demo_background_def nrows_def)

lemma demo_file_name: "last4 ''beam.png'' = ''.png''" "but_last4 ''beam.png'' = ''beam''"
  by (simp_all add: last4_def but_last4_def slice_idx_def)

theorem save_writes_frame_witness:
  "''beam.png'' \<noteq> []
   \<and> imdata_full demo_running = Some (NDArray 3 [[0, 1, 2], [2, 7, - 1]])
   \<and> np_add (NDArray 3 [[0, 1, 2], [2, 7, - 1]]) (backgroundImage demo_running) = Inr demo_frame
   \<and> (\<exists>s'. saveFileDialog ''beam.png'' demo_running = Inr s' \<and>
        files s' ''beam.png'' = Some (astype_uint8 demo_frame) \<and>
        ''beam-bg.png'' \<in> dom (files s'))"
proof -
  have n: "''beam.png'' \<noteq> []" by simp
  have a: "np_add (NDArray 3 [[0, 1, 2], [2, 7, - 1]]) (backgroundImage demo_running) = Inr demo_frame"
    by (simp add: demo_running_fields demo_np_add)
  from save_writes_frame [OF n demo_running_fields(1) a] obtain s' where
    "saveFileDialog ''beam.png'' demo_running = Inr s'"
    "files s' (if last4 ''beam.png'' = ''.png'' then ''beam.png'' else ''beam.png'' @ ''.png'')
       = Some (astype_uint8 demo_frame)"
    "backgroundImage demo_running \<noteq> None \<longrightarrow>
        (if last4 ''beam.png'' = ''.png'' then but_last4 ''beam.png'' @ ''-bg.png''
         else ''beam.png'' @ ''-bg.png'') \<in> dom (files s')"
    by blast
  then have "saveFileDialog ''beam.png'' demo_running = Inr s' \<and>
        files s' ''beam.png'' = Some (astype_uint8 demo_frame) \<and>
        ''beam-bg.png'' \<in> dom (files s')"
    by (simp add: demo_file_name demo_running_fields)
  with n demo_running_fields(1) a show ?thesis by blast
qed

lemma demo_saved:
  "files_after_save ''beam.png'' demo_running ''beam.png'' = Some [[1, 2, 3], [4, 9, 6]]"
  "files_after_save ''beam.png'' demo_running ''beam-bg.png'' = Some [[1, 2, 3], [4, 9, 6]]"
  by (simp_all add: files_after_save_def saveFileDialog_def demo_running_fields demo_np_add
      demo_file_name img_save_def Let_def astype_uint8_def demo_frame_def)

theorem save_writes_frame_counterexample:
  "imdata_full demo_running = Some (NDArray 3 [[0, 1, 2], [2, 7, - 1]])
   \<and> backgroundImage demo_running = Some demo_background
   \<and> files_after_save ''beam.png'' demo_running ''beam.png'' = Some (astype_uint8 demo_frame)
   \<and> files_after_save ''beam.png'' demo_running ''beam.png''
       \<noteq> Some (astype_uint8 (NDArray 3 [[0, 1, 2], [2, 7, - 1]]))
   \<and> files_after_save ''beam.png'' demo_running ''beam-bg.png''
       \<noteq> Some (astype_uint8 demo_background)"
  by (simp add: demo_saved demo_running_fields astype_uint8_def demo_frame_def
      demo_background_def)

section \<open>Arrays: maximum, flattening, cropping\<close>

subsection \<open>Maximum and its first position\<close>

lemma fold_max_Max: "fold max ys (y::int) = Max (set (y # ys))"
proof (induction ys arbitrary: y)
  case Nil
  then show ?case by simp
next
  case (Cons a ys)
  have "fold max (a # ys) y = Max (set (max a y # ys))" using Cons.IH by simp
  also have "\<dots> = Max (set (y # a # ys))"
    by (cases ys) (simp_all add: max.commute max.left_commute max.assoc)
  finally show ?case .
qed

lemma np_max_Max: "xs \<noteq> [] \<Longrightarrow> np_max xs = Inr (Max (set xs))"
  by (cases xs) (simp_all add: np_max_def fold_max_Max)

lemma index_of_less: "v \<in> set xs \<Longrightarrow> index_of v xs < length xs"
  by (induction xs) auto

lemma index_of_nth: "v \<in> set xs \<Longrightarrow> xs ! index_of v xs = v"
  by (induction xs) auto

lemma index_of_first: "j < index_of v xs \<Longrightarrow> xs ! j \<noteq> v"
proof (induction xs arbitrary: j)
  case Nil
  then show ?case by simp
next
  case (Cons x xs)
  then show ?case by (cases j) (auto split: if_splits)
qed

lemma np_argmax_props:
  assumes "xs \<noteq> []"
  shows "\<exists>k. np_argmax xs = Inr k \<and> k < length xs \<and> xs ! k = Max (set xs) \<and>
           (\<forall>j<k. xs ! j \<noteq> Max (set xs))"
proof -
  have m: "Max (set xs) \<in> set xs" using assms by (intro Max_in) simp_all
  show ?thesis
    using index_of_less [OF m] index_of_nth [OF m] index_of_first [of _ "Max (set xs)" xs]
    by (simp add: np_argmax_def np_max_Max [OF assms])
qed

subsection \<open>Rows and the flattened array\<close>

lemma concat_nth_rows:
  assumes "\<forall>r\<in>set rs. length r = w" "k < length rs * w"
  shows "concat rs ! k = rs ! (k div w) ! (k mod w)"
  using assms
proof (induction rs arbitrary: k)
  case Nil
  then show ?case by simp
next
  case (Cons r rs)
  have lr: "length r = w" using Cons.prems(1) by simp
  have wpos: "0 < w" using Cons.prems(2) by (cases w) simp_all
  show ?case
  proof (cases "k < w")
    case True
    then show ?thesis by (simp add: nth_append lr)
  next
    case False
    then have kw: "w \<le> k" by simp
    have "k - w < length rs * w" using Cons.prems(2) kw by simp
    from Cons.IH [OF _ this] Cons.prems(1)
    have ih: "concat rs ! (k - w) = rs ! ((k - w) div w) ! ((k - w) mod w)" by simp
    have d: "k div w = Suc ((k - w) div w)" using kw wpos by (simp add: le_div_geq)
    have md: "k mod w = (k - w) mod w" using kw by (simp add: le_mod_geq)
    show ?thesis using False by (simp add: nth_append lr ih d md)
  qed
qed

lemma length_concat_rows: "\<forall>r\<in>set rs. length r = w \<Longrightarrow> length (concat rs) = length rs * w"
  by (induction rs) simp_all

lemma shape_ok_set: "shape_ok a \<Longrightarrow> \<forall>r\<in>set (rows a). length r = ncols a"
  by (simp add: shape_ok_def list_all_iff)

lemma length_ravel: "shape_ok a \<Longrightarrow> length (ravel a) = nrows a * ncols a"
  by (simp add: ravel_def nrows_def length_concat_rows [OF shape_ok_set])

lemma ravel_nth:
  "shape_ok a \<Longrightarrow> k < nrows a * ncols a \<Longrightarrow>
     ravel a ! k = rows a ! (k div ncols a) ! (k mod ncols a)"
  unfolding ravel_def nrows_def by (rule concat_nth_rows [OF shape_ok_set])

subsection \<open>Cropping\<close>

lemma py_int_of_int: "py_int (of_int k) = k"
  by (simp add: py_int_def)

lemma slice_idx_in: "0 \<le> i \<Longrightarrow> i \<le> int n \<Longrightarrow> slice_idx i n = nat i"
  by (simp add: slice_idx_def)

lemma py_slice_in:
  assumes "0 \<le> a" "a \<le> b" "b \<le> int (length xs)"
  shows "py_slice a b xs = take (nat (b - a)) (drop (nat a) xs)"
    and "length (py_slice a b xs) = nat (b - a)"
proof -
  have i: "slice_idx a (length xs) = nat a" "slice_idx b (length xs) = nat b"
    using assms by (simp_all add: slice_idx_in)
  have d: "nat b - nat a = nat (b - a)" using assms by simp
  show "py_slice a b xs = take (nat (b - a)) (drop (nat a) xs)"
    by (simp add: py_slice_def Let_def i d)
  then show "length (py_slice a b xs) = nat (b - a)" using assms by simp
qed

lemma crop_shape:
  assumes ok: "shape_ok a"
    and y: "0 \<le> y0" "y0 \<le> y1" "y1 \<le> int (nrows a)"
    and x: "0 \<le> x0" "x0 \<le> x1" "x1 \<le> int (ncols a)"
  shows "nrows (crop y0 y1 x0 x1 a) = nat (y1 - y0)"
    and "ncols (crop y0 y1 x0 x1 a) = nat (x1 - x0)"
    and "shape_ok (crop y0 y1 x0 x1 a)"
    and "\<forall>i<nat (y1 - y0). \<forall>j<nat (x1 - x0).
           rows (crop y0 y1 x0 x1 a) ! i ! j = rows a ! (nat y0 + i) ! (nat x0 + j)"
proof -
  have yl: "y1 \<le> int (length (rows a))" using y(3) by (simp add: nrows_def)
  note rs = py_slice_in [OF y(1,2) yl]
  show n: "nrows (crop y0 y1 x0 x1 a) = nat (y1 - y0)"
    by (simp add: crop_def nrows_def rs(2))
  show c: "ncols (crop y0 y1 x0 x1 a) = nat (x1 - x0)"
    using x by (simp add: crop_def slice_len_def slice_idx_in)
  have inrows: "r \<in> set (py_slice y0 y1 (rows a)) \<Longrightarrow> r \<in> set (rows a)" for r
    unfolding rs(1) by (meson in_set_dropD in_set_takeD)
  have rl: "r \<in> set (py_slice y0 y1 (rows a)) \<Longrightarrow> length (py_slice x0 x1 r) = nat (x1 - x0)" for r
    using shape_ok_set [OF ok] inrows [of r] x by (intro py_slice_in(2)) simp_all
  show "shape_ok (crop y0 y1 x0 x1 a)"
    unfolding shape_ok_def list_all_iff using rl c by (simp add: crop_def)
  show "\<forall>i<nat (y1 - y0). \<forall>j<nat (x1 - x0).
           rows (crop y0 y1 x0 x1 a) ! i ! j = rows a ! (nat y0 + i) ! (nat x0 + j)"
  proof (intro allI impI)
    fix i j assume i: "i < nat (y1 - y0)" and j: "j < nat (x1 - x0)"
    have ir: "nat y0 + i < length (rows a)" using i y yl by linarith
    have ri: "py_slice y0 y1 (rows a) ! i = rows a ! (nat y0 + i)"
      unfolding rs(1) using i ir by simp
    have len: "length (rows a ! (nat y0 + i)) = ncols a"
      using shape_ok_nth [OF ok] ir by (simp add: nrows_def)
    have xl: "x1 \<le> int (length (rows a ! (nat y0 + i)))" using x(3) len by simp
    have jr: "nat x0 + j < length (rows a ! (nat y0 + i))" using j x len by linarith
    have "py_slice x0 x1 (rows a ! (nat y0 + i)) ! j = rows a ! (nat y0 + i) ! (nat x0 + j)"
      unfolding py_slice_in(1) [OF x(1,2) xl] using j jr by simp
    then show "rows (crop y0 y1 x0 x1 a) ! i ! j = rows a ! (nat y0 + i) ! (nat x0 + j)"
      using i ri by (simp add: crop_def rs(2))
  qed
qed

section \<open>A whole pass of the loop\<close>

lemma get1DIntensity_props:
  assumes ok: "shape_ok im" and pos: "0 < nrows im" "0 < ncols im"
  shows "\<exists>k. np_argmax (ravel im) = Inr k \<and> k < nrows im * ncols im \<and>
     get1DIntensity im ''h'' = Inr (rows im ! (k div ncols im), (k div ncols im, k mod ncols im)) \<and>
     get1DIntensity im ''v'' =
       Inr (map (\<lambda>r. r ! (k mod ncols im)) (rows im), (k div ncols im, k mod ncols im)) \<and>
     k div ncols im < nrows im \<and> k mod ncols im < ncols im \<and>
     rows im ! (k div ncols im) ! (k mod ncols im) = Max (set (ravel im)) \<and>
     (\<forall>j<k. ravel im ! j \<noteq> Max (set (ravel im)))"
proof -
  have len: "length (ravel im) = nrows im * ncols im" by (rule length_ravel [OF ok])
  then have ne: "ravel im \<noteq> []" using pos by auto
  from np_argmax_props [OF ne] obtain k where
    k: "np_argmax (ravel im) = Inr k" "k < length (ravel im)" "ravel im ! k = Max (set (ravel im))"
      "\<forall>j<k. ravel im ! j \<noteq> Max (set (ravel im))" by blast
  have kl: "k < nrows im * ncols im" using k(2) len by simp
  have d: "k div ncols im < nrows im"
    using kl pos by (simp add: less_mult_imp_div_less)
  have m: "k mod ncols im < ncols im" using pos by simp
  have v: "rows im ! (k div ncols im) ! (k mod ncols im) = Max (set (ravel im))"
    using ravel_nth [OF ok kl] k(3) by simp
  show ?thesis
    using k(1,4) kl d m v by (simp add: get1DIntensity_def unravel_index_def Let_def)
qed

lemma step_curves_result:
  assumes ok: "shape_ok (imdata s)" and pos: "0 < nrows (imdata s)" "0 < ncols (imdata s)"
  shows "\<exists>k. np_argmax (ravel (imdata s)) = Inr k \<and>
     step_curves s =
       (None, s\<lparr>hdata := rows (imdata s) ! (k div ncols (imdata s)),
                vdata := map (\<lambda>r. r ! (k mod ncols (imdata s))) (rows (imdata s)),
                hplot := ([0..<ncols (imdata s)], rows (imdata s) ! (k div ncols (imdata s))),
                vplot := ([0..<nrows (imdata s)],
                          map (\<lambda>r. r ! (k mod ncols (imdata s))) (rows (imdata s)))\<rparr>)"
proof -
  from get1DIntensity_props [OF ok pos] obtain k where
    k: "np_argmax (ravel (imdata s)) = Inr k"
    "get1DIntensity (imdata s) ''h'' =
       Inr (rows (imdata s) ! (k div ncols (imdata s)), (k div ncols (imdata s), k mod ncols (imdata s)))"
    "get1DIntensity (imdata s) ''v'' =
       Inr (map (\<lambda>r. r ! (k mod ncols (imdata s))) (rows (imdata s)),
            (k div ncols (imdata s), k mod ncols (imdata s)))"
    "k div ncols (imdata s) < nrows (imdata s)"
    by blast
  have l: "length (rows (imdata s) ! (k div ncols (imdata s))) = ncols (imdata s)"
    by (rule shape_ok_nth [OF ok k(4)])
  show ?thesis
    using k(1) by (simp add: step_curves_def k(2,3) Let_def l nrows_def)
qed


lemma length_np_sum: "length (np_sum0 a) = ncols a" "length (np_sum1 a) = nrows a"
  by (simp_all add: np_sum0_def np_sum1_def nrows_def)

lemma step_projections_result:
  assumes pos: "0 < nrows (imdata s)" "0 < ncols (imdata s)"
  shows "\<exists>hint vint.
     scale255 (map f_of_int (np_sum0 (imdata s))) = Inr hint \<and>
     scale255 (map f_of_int (np_sum1 (imdata s))) = Inr vint \<and>
     length hint = ncols (imdata s) \<and> length vint = nrows (imdata s) \<and>
     step_projections s =
       (None, s\<lparr>hintplot := ([0..<ncols (imdata s)], hint),
                vintplot := ([0..<nrows (imdata s)], vint)\<rparr>)"
proof -
  have "map f_of_int (np_sum0 (imdata s)) \<noteq> []" "map f_of_int (np_sum1 (imdata s)) \<noteq> []"
    using pos length_np_sum [of "imdata s"] by auto
  from scale255_nonempty [OF this(1)] scale255_nonempty [OF this(2)] obtain hint vint where
    h: "scale255 (map f_of_int (np_sum0 (imdata s))) = Inr hint"
       "length hint = length (map f_of_int (np_sum0 (imdata s)))"
    and v: "scale255 (map f_of_int (np_sum1 (imdata s))) = Inr vint"
       "length vint = length (map f_of_int (np_sum1 (imdata s)))"
    by blast
  show ?thesis
    using h v by (simp add: step_projections_def Let_def length_np_sum)
qed

lemma loop_body_result:
  assumes sub: "np_sub F (backgroundImage s) = Inr R" and ne: "ravel R \<noteq> []"
    and C: "C = crop (py_int (ymin (AOI s))) (py_int (ymax (AOI s)))
                     (py_int (xmin (AOI s))) (py_int (xmax (AOI s))) R"
    and ok: "shape_ok C" and pos: "0 < nrows C" "0 < ncols C"
  shows "\<exists>k hint vint.
     np_argmax (ravel C) = Inr k \<and>
     scale255 (map f_of_int (np_sum0 C)) = Inr hint \<and>
     scale255 (map f_of_int (np_sum1 C)) = Inr vint \<and>
     length hint = ncols C \<and> length vint = nrows C \<and>
     fst (loop_body cf F s) = None \<and>
     imdata_full (snd (loop_body cf F s)) = Some R \<and>
     imdata (snd (loop_body cf F s)) = C \<and>
     hdata (snd (loop_body cf F s)) = rows C ! (k div ncols C) \<and>
     vdata (snd (loop_body cf F s)) = map (\<lambda>r. r ! (k mod ncols C)) (rows C) \<and>
     hplot (snd (loop_body cf F s)) = ([0..<ncols C], rows C ! (k div ncols C)) \<and>
     vplot (snd (loop_body cf F s)) = ([0..<nrows C], map (\<lambda>r. r ! (k mod ncols C)) (rows C)) \<and>
     hintplot (snd (loop_body cf F s)) = ([0..<ncols C], hint) \<and>
     vintplot (snd (loop_body cf F s)) = ([0..<nrows C], vint)"
proof -
  define s1 where "s1 = snd (step_residual F s)"
  define s2 where "s2 = snd (step_crop s1)"
  define s3 where "s3 = snd (step_curves s2)"
  define s4 where "s4 = snd (step_projections s3)"
  define s5 where "s5 = snd (step_waistplot s4)"
  define s6 where "s6 = snd (step_fit cf s5)"
  have r1: "fst (step_residual F s) = None" "imdata_full s1 = Some R" "AOI s1 = AOI s"
    using step_residual_Inr [OF sub] ne by (simp_all add: s1_def step_residual_keeps)
  have r2: "fst (step_crop s1) = None" "imdata s2 = C" "imdata_full s2 = Some R"
    using r1 by (simp_all add: s2_def step_crop_def C)
  from step_curves_result [of s2] ok pos r2(2) obtain k where
    k: "np_argmax (ravel C) = Inr k"
    and c: "step_curves s2 =
       (None, s2\<lparr>hdata := rows C ! (k div ncols C),
                vdata := map (\<lambda>r. r ! (k mod ncols C)) (rows C),
                hplot := ([0..<ncols C], rows C ! (k div ncols C)),
                vplot := ([0..<nrows C], map (\<lambda>r. r ! (k mod ncols C)) (rows C))\<rparr>)"
    by auto
  have r3: "fst (step_curves s2) = None" "imdata s3 = C" "imdata_full s3 = Some R"
    "hdata s3 = rows C ! (k div ncols C)" "vdata s3 = map (\<lambda>r. r ! (k mod ncols C)) (rows C)"
    "hplot s3 = ([0..<ncols C], rows C ! (k div ncols C))"
    "vplot s3 = ([0..<nrows C], map (\<lambda>r. r ! (k mod ncols C)) (rows C))"
    using r2 by (simp_all add: s3_def c)
  from step_projections_result [of s3] pos r3(2) obtain hint vint where
    hv: "scale255 (map f_of_int (np_sum0 C)) = Inr hint"
        "scale255 (map f_of_int (np_sum1 C)) = Inr vint"
        "length hint = ncols C" "length vint = nrows C"
    and p: "step_projections s3 =
       (None, s3\<lparr>hintplot := ([0..<ncols C], hint), vintplot := ([0..<nrows C], vint)\<rparr>)"
    by auto
  have r4: "fst (step_projections s3) = None" "imdata s4 = C" "imdata_full s4 = Some R"
    "hdata s4 = rows C ! (k div ncols C)" "vdata s4 = map (\<lambda>r. r ! (k mod ncols C)) (rows C)"
    "hplot s4 = ([0..<ncols C], rows C ! (k div ncols C))"
    "vplot s4 = ([0..<nrows C], map (\<lambda>r. r ! (k mod ncols C)) (rows C))"
    "hintplot s4 = ([0..<ncols C], hint)" "vintplot s4 = ([0..<nrows C], vint)"
    using r3 by (simp_all add: s4_def p)
  have r5: "fst (step_waistplot s4) = None" by (simp add: step_waistplot_def)
  have r6: "fst (step_fit cf s5) = None" by (simp add: step_fit_def)
  have e: "snd (loop_body cf F s) = s6" "fst (loop_body cf F s) = None"
    using r1(1) r2(1) r3(1) r4(1) r5 r6
    by (simp_all add: loop_body_def snd_and_then fst_and_then
        s1_def s2_def s3_def s4_def s5_def s6_def)
  have f: "imdata s6 = C" "imdata_full s6 = Some R"
    "hdata s6 = rows C ! (k div ncols C)" "vdata s6 = map (\<lambda>r. r ! (k mod ncols C)) (rows C)"
    "hplot s6 = ([0..<ncols C], rows C ! (k div ncols C))"
    "vplot s6 = ([0..<nrows C], map (\<lambda>r. r ! (k mod ncols C)) (rows C))"
    "hintplot s6 = ([0..<ncols C], hint)" "vintplot s6 = ([0..<nrows C], vint)"
    using r4 by (simp_all add: s6_def s5_def step_fit_keeps step_waistplot_keeps)
  show ?thesis using k hv e f by simp
qed

section \<open>A pass of the loop on a valid AOI with whole-number bounds\<close>

lemma np_sub_fits:
  assumes "shape_ok F" "background_fits F s"
  shows "\<exists>R. np_sub F (backgroundImage s) = Inr R \<and> nrows R = nrows F \<and> ncols R = ncols F \<and>
           shape_ok R"
proof (cases "backgroundImage s")
  case None
  have "shape_ok (NDArray (ncols F) (map (map (\<lambda>v. v - 0)) (rows F)))"
    using assms(1) by (simp add: shape_ok_def list_all_iff)
  then show ?thesis using None by (simp add: np_sub_def nrows_def)
next
  case (Some B)
  with assms(2) have "shape_ok B" "nrows B = nrows F" "ncols B = ncols F"
    by (simp_all add: background_fits_def)
  from np_sub_same_shape [OF assms(1) this] show ?thesis using Some by auto
qed

lemma valid_pass:
  assumes F: "shape_ok F" and bg: "background_fits F s"
    and v: "spec_aoi_valid (ncols F) (nrows F) (AOI s)" and i: "integral_aoi (AOI s)"
  shows "\<exists>R C k hint vint.
     np_sub F (backgroundImage s) = Inr R \<and>
     C = crop (py_int (ymin (AOI s))) (py_int (ymax (AOI s)))
              (py_int (xmin (AOI s))) (py_int (xmax (AOI s))) R \<and>
     shape_ok C \<and>
     real (nrows C) = ymax (AOI s) - ymin (AOI s) \<and>
     real (ncols C) = xmax (AOI s) - xmin (AOI s) \<and>
     0 < nrows C \<and> 0 < ncols C \<and>
     np_argmax (ravel C) = Inr k \<and>
     scale255 (map f_of_int (np_sum0 C)) = Inr hint \<and>
     scale255 (map f_of_int (np_sum1 C)) = Inr vint \<and>
     length hint = ncols C \<and> length vint = nrows C \<and>
     fst (loop_body cf F s) = None \<and>
     imdata_full (snd (loop_body cf F s)) = Some R \<and>
     imdata (snd (loop_body cf F s)) = C \<and>
     hdata (snd (loop_body cf F s)) = rows C ! (k div ncols C) \<and>
     vdata (snd (loop_body cf F s)) = map (\<lambda>r. r ! (k mod ncols C)) (rows C) \<and>
     hplot (snd (loop_body cf F s)) = ([0..<ncols C], rows C ! (k div ncols C)) \<and>
     vplot (snd (loop_body cf F s)) = ([0..<nrows C], map (\<lambda>r. r ! (k mod ncols C)) (rows C)) \<and>
     hintplot (snd (loop_body cf F s)) = ([0..<ncols C], hint) \<and>
     vintplot (snd (loop_body cf F s)) = ([0..<nrows C], vint)"
proof -
  from np_sub_fits [OF F bg] obtain R where
    R: "np_sub F (backgroundImage s) = Inr R" "nrows R = nrows F" "ncols R = ncols F" "shape_ok R"
    by blast
  from i obtain x0 x1 y0 y1 where
    b: "xmin (AOI s) = of_int x0" "xmax (AOI s) = of_int x1"
       "ymin (AOI s) = of_int y0" "ymax (AOI s) = of_int y1"
    unfolding integral_aoi_def Ints_def by auto
  from v have x: "0 \<le> x0" "x0 < x1" "x1 \<le> int (ncols R)"
    and y: "0 \<le> y0" "y0 < y1" "y1 \<le> int (nrows R)"
    unfolding spec_aoi_valid_def b R(2,3) by linarith+
  define C where "C = crop y0 y1 x0 x1 R"
  have Ceq: "C = crop (py_int (ymin (AOI s))) (py_int (ymax (AOI s)))
              (py_int (xmin (AOI s))) (py_int (xmax (AOI s))) R"
    by (simp add: C_def b py_int_of_int)
  have sh: "nrows C = nat (y1 - y0)" "ncols C = nat (x1 - x0)" "shape_ok C"
    unfolding C_def using crop_shape [OF R(4), of y0 y1 x0 x1] x y by simp_all
  have pos: "0 < nrows C" "0 < ncols C" using sh x y by simp_all
  have dims: "real (nrows C) = ymax (AOI s) - ymin (AOI s)"
    "real (ncols C) = xmax (AOI s) - xmin (AOI s)"
    using sh x y by (simp_all add: b)
  have "nrows R \<noteq> 0" "ncols R \<noteq> 0" using x y by auto
  then have ne: "ravel R \<noteq> []" using ravel_empty_iff [OF R(4)] by simp
  from loop_body_result [OF R(1) ne Ceq sh(3) pos, of cf] R(1) Ceq sh(3) dims pos
  show ?thesis by blast
qed

lemma demo_zoomed_fields:
  "AOI demo_zoomed = \<lparr>xmin = 1, xmax = 3, ymin = 0, ymax = 2\<rparr>"
  "backgroundImage demo_zoomed = None"
  by (simp_all add: demo_zoomed_def On_set_AOI_def zoom_def demo_state_def)

lemma demo_zoomed_hyps:
  "background_fits demo_frame demo_zoomed"
  "spec_aoi_valid (ncols demo_frame) (nrows demo_frame) (AOI demo_zoomed)"
  "integral_aoi (AOI demo_zoomed)"
  by (simp_all add: background_fits_def spec_aoi_valid_def integral_aoi_def demo_zoomed_fields
      demo_shapes)

lemma demo_zoomed_imdata:
  "imdata (snd (loop_body cf demo_frame demo_zoomed)) = NDArray 2 [[2, 3], [9, 6]]"
proof -
  have s: "np_sub demo_frame (backgroundImage demo_zoomed) = Inr demo_frame"
    by (simp add: demo_zoomed_fields np_sub_def demo_frame_def)
  have "imdata (snd (loop_body cf demo_frame demo_zoomed)) =
      crop (py_int (ymin (AOI demo_zoomed))) (py_int (ymax (AOI demo_zoomed)))
           (py_int (xmin (AOI demo_zoomed))) (py_int (xmax (AOI demo_zoomed))) demo_frame"
    by (rule loop_body_imdata [OF s demo_shapes(7)])
  also have "\<dots> = NDArray 2 [[2, 3], [9, 6]]"
    by (simp add: demo_zoomed_fields crop_def py_int_def slice_len_def slice_idx_def
        py_slice_def demo_frame_def)
  finally show ?thesis .
qed

section \<open>Rescaling a projection\<close>

subsection \<open>Integers are exact\<close>

lemma rnd64_int_exact:
  assumes "\<bar>n\<bar> < 2 ^ 53"
  shows "rnd64 (of_int n) = of_int n"
proof (cases "n = 0")
  case True
  then show ?thesis by (simp add: rnd64_def)
next
  case False
  define x :: real where "x = of_int n"
  have "1 \<le> \<bar>n\<bar>" using False by simp
  then have "real_of_int 1 \<le> real_of_int \<bar>n\<bar>" by (simp only: of_int_le_iff)
  then have x1: "1 \<le> \<bar>x\<bar>" unfolding x_def by simp
  have "real_of_int \<bar>n\<bar> < real_of_int (2 ^ 53)" using assms by (simp only: of_int_less_iff)
  then have x2: "\<bar>x\<bar> < 2 ^ 53" unfolding x_def by simp
  define l where "l = \<lfloor>log 2 \<bar>x\<bar>\<rfloor>"
  have "0 \<le> log 2 \<bar>x\<bar>" using x1 by simp
  then have l0: "0 \<le> l" by (simp add: l_def)
  have l53: "log 2 ((2::real) ^ 53) = 53" by (subst log_nat_power) simp_all
  have "log 2 \<bar>x\<bar> < log 2 (2 ^ 53)" using x1 x2 by (subst log_less_cancel_iff) simp_all
  then have "log 2 \<bar>x\<bar> < 53" unfolding l53 .
  then have l52: "l \<le> 52" unfolding l_def by (simp add: floor_less_iff)
  have e: "ulp_exp x = l - 52" using l0 by (simp add: ulp_exp_def l_def)
  define j where "j = nat (52 - l)"
  have je: "of_int (l - 52) = - real j" using l52 by (simp add: j_def)
  have p: "(2::real) powr of_int (l - 52) = 1 / 2 ^ j"
    unfolding je by (simp add: powr_minus powr_realpow divide_inverse)
  have p': "(2::real) powr (real_of_int l - 52) = 1 / 2 ^ j" using p by simp
  have "x / 2 powr of_int (l - 52) = of_int (n * 2 ^ j)"
    by (simp add: p' x_def)
  then have "ties_even (x / 2 powr of_int (l - 52)) = n * 2 ^ j"
    by (simp only: ties_even_of_int)
  then have "rnd64 x = of_int (n * 2 ^ j) * (1 / 2 ^ j)"
    using x1 by (auto simp: rnd64_def e p')
  then show ?thesis by (simp add: x_def)
qed

lemma f_of_int_exact: "\<bar>n\<bar> < 2 ^ 53 \<Longrightarrow> f_of_int n = Fin (of_int n)"
proof -
  assume a: "\<bar>n\<bar> < 2 ^ 53"
  then have "real_of_int \<bar>n\<bar> < real_of_int (2 ^ 53)" by (simp only: of_int_less_iff)
  then have "\<bar>real_of_int n\<bar> < 2 ^ 53" by simp
  also have "(2::real) ^ 53 < 2 ^ 1024" by simp
  finally show ?thesis unfolding f_of_int_def
    by (intro fin_eq rnd64_int_exact [OF a])
qed



subsection \<open>Rounded quotient and product\<close>

lemma fin_normal:
  assumes "2 powr (- 1022) \<le> \<bar>x\<bar>" "\<bar>x\<bar> \<le> 2 ^ 1000"
  shows "\<exists>r. fin x = Fin r \<and> \<bar>r - x\<bar> \<le> \<bar>x\<bar> / 2 ^ 53"
proof -
  from rnd64_rel_err [OF assms(1)] have e: "\<bar>rnd64 x - x\<bar> \<le> \<bar>x\<bar> / 2 ^ 53" .
  have "\<bar>rnd64 x\<bar> \<le> \<bar>x\<bar> + \<bar>x\<bar> / 2 ^ 53" using e by linarith
  also have "\<dots> \<le> 2 * \<bar>x\<bar>" by (simp add: field_simps)
  also have "\<dots> \<le> 2 * 2 ^ 1000" using assms(2) by simp
  also have "\<dots> < (2::real) ^ 1024" by simp
  finally have "\<bar>rnd64 x\<bar> < 2 ^ 1024" .
  then have "fin x = Fin (rnd64 x)" by (intro fin_eq) simp_all
  with e show ?thesis by blast
qed

lemma two_powr_m1022_le: "(2::real) powr (- 1022) \<le> 1 / 2 ^ 60"
proof -
  have "(2::real) powr (- 1022) = inverse (2 powr 1022)" by (rule powr_minus)
  also have "\<dots> = 1 / 2 ^ 1022" by (simp add: inverse_eq_divide)
  also have "\<dots> \<le> 1 / 2 ^ 60" by simp
  finally show ?thesis .
qed










section \<open>The exposure time\<close>

lemma fin_pos_bounds:
  assumes "1 / 2 ^ 60 \<le> x" "x \<le> 2 ^ 1000"
  shows "\<exists>r. fin x = Fin r \<and> x * (1 - 1 / 2 ^ 53) \<le> r \<and> r \<le> x * (1 + 1 / 2 ^ 53)"
proof -
  have xp: "0 < x" using assms(1) by (smt (verit) divide_pos_pos zero_less_power zero_less_one)
  have "2 powr (- 1022) \<le> \<bar>x\<bar>" using two_powr_m1022_le assms(1) xp by linarith
  moreover have "\<bar>x\<bar> \<le> 2 ^ 1000" using assms(2) xp by simp
  ultimately obtain r where r: "fin x = Fin r" "\<bar>r - x\<bar> \<le> \<bar>x\<bar> / 2 ^ 53"
    using fin_normal by blast
  have "\<bar>r - x\<bar> \<le> x * (1 / 2 ^ 53)" using r(2) xp by simp
  then have "x * (1 - 1 / 2 ^ 53) \<le> r \<and> r \<le> x * (1 + 1 / 2 ^ 53)"
    by (simp only: abs_le_iff right_diff_distrib distrib_left) linarith
  with r(1) show ?thesis by blast
qed

lemma ln10_le: "ln (10::real) \<le> 9" "0 < ln (10::real)"
  using ln_le_minus_one [of "10::real"] by simp_all

lemma ten_powr_small:
  assumes "\<bar>t::real\<bar> \<le> 5 / 2 ^ 53"
  shows "1 - 46 / 2 ^ 53 \<le> 10 powr t" "10 powr t \<le> 1 + 46 / 2 ^ 53"
proof -
  define s :: real where "s = 45 / 2 ^ 53"
  have s: "0 \<le> s" "s \<le> 1" by (simp_all add: s_def)
  have "\<bar>t * ln 10\<bar> = \<bar>t\<bar> * ln (10::real)" using ln10_le(2) by (simp add: abs_mult)
  also have "\<dots> \<le> (5 / 2 ^ 53) * 9"
    using assms ln10_le by (intro mult_mono) simp_all
  also have "\<dots> = s" by (simp add: s_def)
  finally have b: "- s \<le> t * ln 10" "t * ln 10 \<le> s" by (simp_all add: abs_le_iff)
  have e: "10 powr t = exp (t * ln 10)" by (simp add: powr_def)
  have "1 + (- s) \<le> exp (- s)" by (rule exp_ge_add_one_self)
  also have "\<dots> \<le> exp (t * ln 10)" using b(1) by simp
  finally have lo: "1 - s \<le> 10 powr t" unfolding e by simp
  have "exp (t * ln 10) \<le> exp s" using b(2) by simp
  also have "\<dots> \<le> 1 + s + s\<^sup>2" by (rule exp_bound [OF s])
  finally have hi: "10 powr t \<le> 1 + s + s\<^sup>2" unfolding e .
  have "1 - 46 / 2 ^ 53 \<le> 1 - s" by (simp add: s_def)
  with lo show "1 - 46 / 2 ^ 53 \<le> 10 powr t" by linarith
  have "1 + s + s\<^sup>2 \<le> 1 + 46 / 2 ^ 53" by (simp add: s_def power2_eq_square)
  with hi show "10 powr t \<le> 1 + 46 / 2 ^ 53" by linarith
qed

lemma lit_0_037_bounds:
  "\<exists>c. lit_0_037 = Fin c \<and> 37 / 1000 * (1 - 1 / 2 ^ 53) \<le> c \<and> c \<le> 37 / 1000 * (1 + 1 / 2 ^ 53)"
proof -
  have "(2::real) powr (- 1022) \<le> \<bar>37 / 1000\<bar>" using two_powr_m1022_le by simp
  from rnd64_rel_err [OF this] have "\<bar>rnd64 (37 / 1000) - 37 / 1000\<bar> \<le> 37 / 1000 * (1 / 2 ^ 53)"
    by simp
  then have "37 / 1000 * (1 - 1 / 2 ^ 53) \<le> rnd64 (37 / 1000) \<and>
      rnd64 (37 / 1000) \<le> 37 / 1000 * (1 + 1 / 2 ^ 53)"
    by (simp only: abs_le_iff right_diff_distrib distrib_left) linarith
  then show ?thesis unfolding lit_0_037_def by blast
qed

lemma exposure_bounds:
  assumes v: "1 \<le> v" "v \<le> 100"
  shows "\<exists>r. new_exposure v = Fin r \<and>
     37 / 1000 * 10 powr (real_of_int v / 23) * (1 - 1 / 2 ^ 47) \<le> r \<and>
     r \<le> 37 / 1000 * 10 powr (real_of_int v / 23) * (1 + 1 / 2 ^ 47)"
proof -
  define u :: real where "u = 1 / 2 ^ 53"
  define q :: real where "q = real_of_int v / 23"
  define Q :: real where "Q = 10 powr q"
  define A :: real where "A = 37 / 1000"
  have u: "0 < u" "u \<le> 1 / 100" by (simp_all add: u_def)
  have "real_of_int 1 \<le> real_of_int v" "real_of_int v \<le> real_of_int 100"
    using v by (simp_all only: of_int_le_iff)
  then have q: "1 / 23 \<le> q" "q \<le> 100 / 23" by (simp_all add: q_def)
  \<comment> \<open>the slider value as a float, and the division by 23\<close>
  have "\<bar>v\<bar> < 2 ^ 53" using v by simp
  then have a: "f_of_int v = Fin (real_of_int v)" by (rule f_of_int_exact)
  have "1 / 2 ^ 60 \<le> q" "q \<le> 2 ^ 1000" using q by simp_all
  from fin_pos_bounds [OF this] obtain d where
    d: "fin q = Fin d" "q * (1 - u) \<le> d" "d \<le> q * (1 + u)" unfolding u_def by blast
  have dv: "fdiv (f_of_int v) (Fin 23) = Fin d"
    by (simp add: a fdiv_def d(1) [unfolded q_def])
  have "\<bar>d - q\<bar> \<le> q * u" using d(2,3) by (simp add: abs_le_iff algebra_simps)
  also have "\<dots> \<le> 5 * u" using q u by (intro mult_right_mono) simp_all
  finally have dq: "\<bar>d - q\<bar> \<le> 5 / 2 ^ 53" by (simp add: u_def)
  \<comment> \<open>the power\<close>
  have Q: "1 \<le> Q" "Q \<le> 10 ^ 5"
  proof -
    have "10 powr 0 \<le> (10::real) powr q" using q by (intro powr_mono) simp_all
    then show "1 \<le> Q" by (simp add: Q_def)
    have "(10::real) powr q \<le> 10 powr 5" using q by (intro powr_mono) simp_all
    then show "Q \<le> 10 ^ 5" by (simp add: Q_def)
  qed
  define P :: real where "P = 10 powr d"
  have "P = Q * 10 powr (d - q)" unfolding P_def Q_def by (simp add: powr_add [symmetric])
  with ten_powr_small [OF dq] Q have P: "Q * (1 - 46 * u) \<le> P" "P \<le> Q * (1 + 46 * u)"
    by (simp_all add: u_def)
  have Pr: "1 / 2 \<le> P" "P \<le> 2 * 10 ^ 5"
  proof -
    have "1 * (1 / 2) \<le> Q * (1 - 46 * u)" using Q u by (intro mult_mono) simp_all
    with P(1) show "1 / 2 \<le> P" by simp
    have "Q * (1 + 46 * u) \<le> 10 ^ 5 * 2" using Q u by (intro mult_mono) simp_all
    with P(2) show "P \<le> 2 * 10 ^ 5" by simp
  qed
  have "1 / 2 ^ 60 \<le> P" "P \<le> 2 ^ 1000" using Pr by simp_all
  from fin_pos_bounds [OF this] obtain p where
    p: "fin P = Fin p" "P * (1 - u) \<le> p" "p \<le> P * (1 + u)" unfolding u_def by blast
  have pw: "fpow10 (Fin d) = Fin p" by (simp add: fpow10_def p(1) [unfolded P_def])
  have pl: "Q * (1 - 46 * u) * (1 - u) \<le> p"
  proof -
    have "Q * (1 - 46 * u) * (1 - u) \<le> P * (1 - u)" using P(1) u by (intro mult_right_mono) simp_all
    with p(2) show ?thesis by linarith
  qed
  have ph: "p \<le> Q * (1 + 46 * u) * (1 + u)"
  proof -
    have "P * (1 + u) \<le> Q * (1 + 46 * u) * (1 + u)" using P(2) u by (intro mult_right_mono) simp_all
    with p(3) show ?thesis by linarith
  qed
  have p0: "1 / 4 \<le> p" "p \<le> 4 * 10 ^ 5"
  proof -
    have "1 / 2 * (1 / 2) \<le> P * (1 - u)" using Pr u by (intro mult_mono) simp_all
    with p(2) show "1 / 4 \<le> p" by simp
    have "P * (1 + u) \<le> 2 * 10 ^ 5 * 2" using Pr u by (intro mult_mono) simp_all
    with p(3) show "p \<le> 4 * 10 ^ 5" by simp
  qed
  \<comment> \<open>the literal and the product\<close>
  from lit_0_037_bounds obtain c where
    c: "lit_0_037 = Fin c" "A * (1 - u) \<le> c" "c \<le> A * (1 + u)" unfolding A_def u_def by blast
  have c0: "1 / 100 \<le> c" "c \<le> 1"
  proof -
    have "1 / 50 * (1 / 2) \<le> A * (1 - u)" using u unfolding A_def by (intro mult_mono) simp_all
    with c(2) show "1 / 100 \<le> c" by simp
    have "A * (1 + u) \<le> 1 / 2 * 2" using u unfolding A_def by (intro mult_mono) simp_all
    with c(3) show "c \<le> 1" by simp
  qed
  have cp: "1 / 400 \<le> c * p" "c * p \<le> 4 * 10 ^ 5"
  proof -
    have "1 / 100 * (1 / 4) \<le> c * p" using c0 p0 by (intro mult_mono) simp_all
    then show "1 / 400 \<le> c * p" by simp
    have "c * p \<le> 1 * (4 * 10 ^ 5)" using c0 p0 by (intro mult_mono) simp_all
    then show "c * p \<le> 4 * 10 ^ 5" by simp
  qed
  have "1 / 2 ^ 60 \<le> c * p" "c * p \<le> 2 ^ 1000" using cp by simp_all
  from fin_pos_bounds [OF this] obtain r where
    r: "fin (c * p) = Fin r" "c * p * (1 - u) \<le> r" "r \<le> c * p * (1 + u)" unfolding u_def by blast
  have e: "new_exposure v = Fin r"
    by (simp add: new_exposure_def dv pw c(1) fmul_def r(1))
  \<comment> \<open>the four errors together\<close>
  have AQ: "0 \<le> A * Q" using Q by (simp add: A_def)
  have lo: "A * Q * ((1 - u) * (1 - 46 * u) * (1 - u) * (1 - u)) \<le> r"
  proof -
    have "A * (1 - u) * (Q * (1 - 46 * u) * (1 - u)) \<le> c * p"
      using c(2) pl u Q by (intro mult_mono) (simp_all add: A_def)
    then have "A * (1 - u) * (Q * (1 - 46 * u) * (1 - u)) * (1 - u) \<le> c * p * (1 - u)"
      using u by (intro mult_right_mono) simp_all
    with r(2) show ?thesis by (simp add: mult_ac)
  qed
  have hi: "r \<le> A * Q * ((1 + u) * (1 + 46 * u) * (1 + u) * (1 + u))"
  proof -
    have "c * p \<le> A * (1 + u) * (Q * (1 + 46 * u) * (1 + u))"
      using c(3) ph u Q c0 p0 by (intro mult_mono) (simp_all add: A_def)
    then have "c * p * (1 + u) \<le> A * (1 + u) * (Q * (1 + 46 * u) * (1 + u)) * (1 + u)"
      using u by (intro mult_right_mono) simp_all
    with r(3) show ?thesis by (simp add: mult_ac)
  qed
  have "1 - 1 / 2 ^ 47 \<le> (1 - u) * (1 - 46 * u) * (1 - u) * (1 - u)" by (simp add: u_def)
  then have "A * Q * (1 - 1 / 2 ^ 47) \<le> A * Q * ((1 - u) * (1 - 46 * u) * (1 - u) * (1 - u))"
    using AQ by (rule mult_left_mono)
  with lo have lo': "A * Q * (1 - 1 / 2 ^ 47) \<le> r" by linarith
  have "(1 + u) * (1 + 46 * u) * (1 + u) * (1 + u) \<le> 1 + 1 / 2 ^ 47" by (simp add: u_def)
  then have "A * Q * ((1 + u) * (1 + 46 * u) * (1 + u) * (1 + u)) \<le> A * Q * (1 + 1 / 2 ^ 47)"
    using AQ by (rule mult_left_mono)
  with hi have hi': "r \<le> A * Q * (1 + 1 / 2 ^ 47)" by linarith
  from e lo' hi' show ?thesis unfolding A_def Q_def q_def by blast
qed

lemma ten_powr_50_23: "149.2 \<le> (10::real) powr (50 / 23)" "(10::real) powr (50 / 23) \<le> 149.3"
proof -
  define y :: real where "y = 10 * 10 powr (50 / 23)"
  have yp: "0 < y" by (simp add: y_def)
  have "(10 powr (50 / 23)) ^ 23 = ((10::real) powr (50 / 23)) powr 23"
    using powr_realpow [of "(10::real) powr (50 / 23)" 23] by simp
  also have "\<dots> = 10 powr (50 / 23 * 23)" by (rule powr_powr)
  also have "\<dots> = 10 ^ 50" using powr_realpow [of "10::real" 50] by simp
  finally have "y ^ 23 = 10 ^ 23 * 10 ^ 50" unfolding y_def by (simp only: power_mult_distrib)
  then have e: "y ^ 23 = 10 ^ 73" by simp
  have lo: "1492 \<le> y"
  proof (rule ccontr)
    assume "\<not> 1492 \<le> y"
    then have "y < 1492" by simp
    then have "y ^ 23 < 1492 ^ 23" using yp by (intro power_strict_mono) simp_all
    then show False unfolding e by simp
  qed
  have hi: "y \<le> 1493"
  proof (rule ccontr)
    assume "\<not> y \<le> 1493"
    then have "1493 < y" by simp
    then have "1493 ^ 23 < y ^ 23" by (intro power_strict_mono) simp_all
    then show False unfolding e by simp
  qed
  show "149.2 \<le> (10::real) powr (50 / 23)" using lo by (simp add: y_def)
  show "(10::real) powr (50 / 23) \<le> 149.3" using hi by (simp add: y_def)
qed

lemma exposure_50: "\<exists>r. new_exposure 50 = Fin r \<and> 5.52 \<le> r \<and> r \<le> 5.53"
proof -
  have v: "1 \<le> (50::int)" "(50::int) \<le> 100" by simp_all
  from exposure_bounds [OF v] obtain r where
    r: "new_exposure 50 = Fin r"
    "37 / 1000 * 10 powr (50 / 23) * (1 - 1 / 2 ^ 47) \<le> r"
    "r \<le> 37 / 1000 * 10 powr (50 / 23) * (1 + 1 / 2 ^ 47)"
    by auto
  have "37 / 1000 * 149.2 * (1 - 1 / 2 ^ 47) \<le> 37 / 1000 * (10::real) powr (50 / 23) * (1 - 1 / 2 ^ 47)"
    using ten_powr_50_23(1) by (intro mult_right_mono mult_left_mono) simp_all
  moreover have "(5.52::real) \<le> 37 / 1000 * 149.2 * (1 - 1 / 2 ^ 47)" by simp
  ultimately have lo: "5.52 \<le> r" using r(2) by linarith
  have "37 / 1000 * (10::real) powr (50 / 23) * (1 + 1 / 2 ^ 47) \<le> 37 / 1000 * 149.3 * (1 + 1 / 2 ^ 47)"
    using ten_powr_50_23(2) by (intro mult_right_mono mult_left_mono) simp_all
  moreover have "37 / 1000 * 149.3 * (1 + 1 / 2 ^ 47) \<le> (5.53::real)" by simp
  ultimately have hi: "r \<le> 5.53" using r(3) by linarith
  from r(1) lo hi show ?thesis by blast
qed

text \<open>
  C9, as the program has it. For a slider value from 1 to 100 the exposure sent to the
  camera is the float computed as \<^verbatim>\<open>0.037 * 10 ** (value / 23)\<close>: a finite number
  within a relative error of \<open>2 ^ -47\<close> of the real number
  \<open>0.037 \<times> 10 powr (value / 23)\<close>. For the value 50 it lies between 5.52 and 5.53
  milliseconds (not near 6.51).
\<close>

theorem exposure_mapping:
  "(1 \<le> v \<and> v \<le> 100 \<longrightarrow>
      cam_exposure (On_exposure_change v s) = new_exposure v \<and>
      (\<exists>r. new_exposure v = Fin r \<and>
         \<bar>r - 0.037 * 10 powr (real_of_int v / 23)\<bar>
           \<le> 0.037 * 10 powr (real_of_int v / 23) / 2 ^ 47))
   \<and> (\<exists>r. cam_exposure (On_exposure_change 50 s) = Fin r \<and> 5.52 \<le> r \<and> r \<le> 5.53)"
proof (intro conjI impI)
  assume v: "1 \<le> v \<and> v \<le> 100"
  show "cam_exposure (On_exposure_change v s) = new_exposure v"
    by (simp add: On_exposure_change_def)
  from v exposure_bounds [of v] obtain r where
    r: "new_exposure v = Fin r"
    "37 / 1000 * 10 powr (real_of_int v / 23) * (1 - 1 / 2 ^ 47) \<le> r"
    "r \<le> 37 / 1000 * 10 powr (real_of_int v / 23) * (1 + 1 / 2 ^ 47)"
    by blast
  define T :: real where "T = 37 / 1000 * 10 powr (real_of_int v / 23)"
  have "T * (1 - 1 / 2 ^ 47) \<le> r" "r \<le> T * (1 + 1 / 2 ^ 47)" using r(2,3) by (simp_all add: T_def)
  then have "\<bar>r - T\<bar> \<le> T / 2 ^ 47"
    by (simp only: abs_le_iff right_diff_distrib distrib_left) (simp add: field_simps)
  then have "\<bar>r - 0.037 * 10 powr (real_of_int v / 23)\<bar> \<le> 0.037 * 10 powr (real_of_int v / 23) / 2 ^ 47"
    by (simp add: T_def)
  with r(1) show "\<exists>r. new_exposure v = Fin r \<and>
         \<bar>r - 0.037 * 10 powr (real_of_int v / 23)\<bar>
           \<le> 0.037 * 10 powr (real_of_int v / 23) / 2 ^ 47"
    by blast
next
  show "\<exists>r. cam_exposure (On_exposure_change 50 s) = Fin r \<and> 5.52 \<le> r \<and> r \<le> 5.53"
    using exposure_50 by (simp add: On_exposure_change_def)
qed

theorem exposure_mapping_witness:
  "1 \<le> (50::int) \<and> (50::int) \<le> 100
   \<and> cam_exposure (On_exposure_change 50 demo_state) = new_exposure 50
   \<and> (\<exists>r. new_exposure 50 = Fin r \<and>
         \<bar>r - 0.037 * 10 powr (50 / 23)\<bar> \<le> 0.037 * 10 powr (50 / 23) / 2 ^ 47)"
proof -
  have v: "1 \<le> (50::int) \<and> (50::int) \<le> 100" by simp
  from exposure_mapping [of 50 demo_state, THEN conjunct1, rule_format, OF v] v
  show ?thesis by simp
qed

theorem exposure_mapping_counterexample:
  "\<exists>r. cam_exposure (On_exposure_change 50 demo_state) = Fin r \<and> r \<le> 5.53 \<and>
        0.98 \<le> \<bar>r - 6.51\<bar>"
proof -
  from exposure_50 obtain r where
    r: "new_exposure 50 = Fin r" "5.52 \<le> r" "r \<le> 5.53" by blast
  then have "0.98 \<le> \<bar>r - 6.51\<bar>" by simp
  with r show ?thesis by (auto simp: On_exposure_change_def)
qed

section \<open>The length of the histories\<close>

text \<open>The histories keep their 20 entries, so the assignment to index 0 is in range.\<close>

lemma calc_waists_lengths:
  "length (waistListX (calc_waists cf s)) = length (waistListX s)"
  "length (waistListY (calc_waists cf s)) = length (waistListY s)"
  using calc_waists_cases [of cf s]
  by (auto dest!: calc_waists_body_Inr simp: push_waist_length)

lemma start_state_lengths:
  "start_state frame = Inr s \<Longrightarrow> length (waistListX s) = 20 \<and> length (waistListY s) = 20"
  by (auto simp: start_state_def bind_exn_def waist_init_def split: sum.splits)

section \<open>Projections and raw curves, whatever the AOI\<close>

subsection \<open>Crops with any bounds\<close>

lemma slice_idx_le: "slice_idx i n \<le> n"
  by (auto simp: slice_idx_def max_def)

lemma slice_len_le: "slice_len a b n \<le> n"
  using slice_idx_le [of b n] by (simp add: slice_len_def)

lemma length_py_slice: "length (py_slice a b xs) = slice_len a b (length xs)"
  using slice_idx_le [of b "length xs"] by (simp add: py_slice_def slice_len_def Let_def)

lemma set_py_slice: "set (py_slice a b xs) \<subseteq> set xs"
  unfolding py_slice_def Let_def by (meson set_take_subset set_drop_subset subset_trans)

lemma crop_any:
  assumes "shape_ok a"
  shows "shape_ok (crop y0 y1 x0 x1 a)"
    and "nrows (crop y0 y1 x0 x1 a) = slice_len y0 y1 (nrows a)"
    and "ncols (crop y0 y1 x0 x1 a) = slice_len x0 x1 (ncols a)"
proof -
  have "\<forall>r\<in>set (py_slice y0 y1 (rows a)). length r = ncols a"
    using shape_ok_set [OF assms] set_py_slice [of y0 y1 "rows a"] by blast
  then show "shape_ok (crop y0 y1 x0 x1 a)"
    by (simp add: shape_ok_def list_all_iff crop_def length_py_slice)
  show "nrows (crop y0 y1 x0 x1 a) = slice_len y0 y1 (nrows a)"
    by (simp add: crop_def nrows_def length_py_slice)
  show "ncols (crop y0 y1 x0 x1 a) = slice_len x0 x1 (ncols a)"
    by (simp add: crop_def)
qed

lemma slice_len_valid:
  assumes "0 \<le> a" "a < b" "b \<le> real n"
  shows "slice_len (py_int a) (py_int b) n = nat (py_int b - py_int a)"
proof -
  have "\<lfloor>a\<rfloor> \<le> \<lfloor>b\<rfloor>" using assms(2) by (intro floor_mono) simp
  moreover have "\<lfloor>b\<rfloor> \<le> \<lfloor>real n\<rfloor>" using assms(3) by (rule floor_mono)
  moreover have "0 \<le> \<lfloor>a\<rfloor>" using assms(1) by simp
  ultimately have "0 \<le> py_int a" "py_int a \<le> py_int b" "py_int b \<le> int n"
    using assms by (simp_all add: py_int_def)
  then show ?thesis by (simp add: slice_len_def slice_idx_in)
qed



lemma any_pass:
  assumes F: "shape_ok F" and bg: "background_fits F s"
    and sub: "np_sub F (backgroundImage s) = Inr R"
    and C: "C = crop (py_int (ymin (AOI s))) (py_int (ymax (AOI s)))
                     (py_int (xmin (AOI s))) (py_int (xmax (AOI s))) R"
  shows "shape_ok R" and "shape_ok C"
    and "nrows C = slice_len (py_int (ymin (AOI s))) (py_int (ymax (AOI s))) (nrows F)"
    and "ncols C = slice_len (py_int (xmin (AOI s))) (py_int (xmax (AOI s))) (ncols F)"
    and "0 < nrows F \<Longrightarrow> 0 < ncols F \<Longrightarrow> imdata (snd (loop_body cf F s)) = C"
    and "0 < nrows C \<Longrightarrow> 0 < ncols C \<Longrightarrow> 0 < nrows F \<and> 0 < ncols F"
proof -
  from np_sub_fits [OF F bg] sub have R: "nrows R = nrows F" "ncols R = ncols F" "shape_ok R"
    by auto
  show "shape_ok R" by (rule R(3))
  show "shape_ok C" unfolding C by (rule crop_any(1) [OF R(3)])
  show n: "nrows C = slice_len (py_int (ymin (AOI s))) (py_int (ymax (AOI s))) (nrows F)"
    unfolding C crop_any(2) [OF R(3)] R(1) ..
  show c: "ncols C = slice_len (py_int (xmin (AOI s))) (py_int (xmax (AOI s))) (ncols F)"
    unfolding C crop_any(3) [OF R(3)] R(2) ..
  show "imdata (snd (loop_body cf F s)) = C" if "0 < nrows F" "0 < ncols F"
  proof -
    have "ravel R \<noteq> []" using ravel_empty_iff [OF R(3)] that R(1,2) by simp
    from loop_body_imdata [OF sub this] show ?thesis unfolding C .
  qed
  show "0 < nrows F \<and> 0 < ncols F" if "0 < nrows C" "0 < ncols C"
    using that slice_len_le [of "py_int (ymin (AOI s))" "py_int (ymax (AOI s))" "nrows F"]
      slice_len_le [of "py_int (xmin (AOI s))" "py_int (xmax (AOI s))" "ncols F"]
    unfolding n c by linarith
qed

lemma valid_aoi_lengths:
  assumes F: "shape_ok F" and bg: "background_fits F s"
    and v: "spec_aoi_valid (ncols F) (nrows F) (AOI s)"
  shows "length (np_sum0 (imdata (snd (loop_body cf F s))))
           = nat (py_int (xmax (AOI s)) - py_int (xmin (AOI s)))"
    and "length (np_sum1 (imdata (snd (loop_body cf F s))))
           = nat (py_int (ymax (AOI s)) - py_int (ymin (AOI s)))"
proof -
  from np_sub_fits [OF F bg] obtain R where sub: "np_sub F (backgroundImage s) = Inr R" by blast
  define C where "C = crop (py_int (ymin (AOI s))) (py_int (ymax (AOI s)))
                     (py_int (xmin (AOI s))) (py_int (xmax (AOI s))) R"
  note p = any_pass [OF F bg sub C_def]
  from v have b: "0 \<le> xmin (AOI s)" "xmin (AOI s) < xmax (AOI s)" "xmax (AOI s) \<le> real (ncols F)"
    "0 \<le> ymin (AOI s)" "ymin (AOI s) < ymax (AOI s)" "ymax (AOI s) \<le> real (nrows F)"
    by (simp_all add: spec_aoi_valid_def)
  have "0 < real (ncols F)" "0 < real (nrows F)" using b by linarith+
  then have im: "imdata (snd (loop_body cf F s)) = C" by (intro p(5)) simp_all
  show "length (np_sum0 (imdata (snd (loop_body cf F s))))
           = nat (py_int (xmax (AOI s)) - py_int (xmin (AOI s)))"
    unfolding im length_np_sum p(4) by (rule slice_len_valid [OF b(1-3)])
  show "length (np_sum1 (imdata (snd (loop_body cf F s))))
           = nat (py_int (ymax (AOI s)) - py_int (ymin (AOI s)))"
    unfolding im length_np_sum p(3) by (rule slice_len_valid [OF b(4-6)])
qed

text \<open>
  C8, as the program has it. For a frame of the camera and an AOI that satisfies the
  invariant for the shape of the frame, the crop uses the bounds truncated by
  \<^verbatim>\<open>int\<close>: the sum down each column of the cropped residual has
  \<open>int(xmax) - int(xmin)\<close> entries and the sum along each row has
  \<open>int(ymax) - int(ymin)\<close>. When the four bounds are whole numbers these are the
  width \<open>xmax - xmin\<close> and the height \<open>ymax - ymin\<close> of the AOI, the pass succeeds
  and the rescaled projections that are plotted have the same lengths.
\<close>

theorem projection_lengths:
  assumes "shape_ok F" and "background_fits F s"
    and "spec_aoi_valid (ncols F) (nrows F) (AOI s)"
  shows "length (np_sum0 (imdata (snd (loop_body cf F s))))
           = nat (py_int (xmax (AOI s)) - py_int (xmin (AOI s))) \<and>
     length (np_sum1 (imdata (snd (loop_body cf F s))))
           = nat (py_int (ymax (AOI s)) - py_int (ymin (AOI s))) \<and>
     (integral_aoi (AOI s) \<longrightarrow>
        fst (loop_body cf F s) = None \<and>
        real (length (np_sum0 (imdata (snd (loop_body cf F s))))) = xmax (AOI s) - xmin (AOI s) \<and>
        real (length (np_sum1 (imdata (snd (loop_body cf F s))))) = ymax (AOI s) - ymin (AOI s) \<and>
        real (length (snd (hintplot (snd (loop_body cf F s))))) = xmax (AOI s) - xmin (AOI s) \<and>
        real (length (snd (vintplot (snd (loop_body cf F s))))) = ymax (AOI s) - ymin (AOI s))"
proof (intro conjI impI)
  show "length (np_sum0 (imdata (snd (loop_body cf F s))))
           = nat (py_int (xmax (AOI s)) - py_int (xmin (AOI s)))"
    by (rule valid_aoi_lengths(1) [OF assms])
  show "length (np_sum1 (imdata (snd (loop_body cf F s))))
           = nat (py_int (ymax (AOI s)) - py_int (ymin (AOI s)))"
    by (rule valid_aoi_lengths(2) [OF assms])
next
  assume i: "integral_aoi (AOI s)"
  note p = valid_pass [OF assms i, of cf]
  from p show "fst (loop_body cf F s) = None" by blast
  from p show "real (length (np_sum0 (imdata (snd (loop_body cf F s))))) = xmax (AOI s) - xmin (AOI s)"
    by (auto simp: length_np_sum)
  from p show "real (length (np_sum1 (imdata (snd (loop_body cf F s))))) = ymax (AOI s) - ymin (AOI s)"
    by (auto simp: length_np_sum)
  from p show "real (length (snd (hintplot (snd (loop_body cf F s))))) = xmax (AOI s) - xmin (AOI s)"
    by auto
  from p show "real (length (snd (vintplot (snd (loop_body cf F s))))) = ymax (AOI s) - ymin (AOI s)"
    by auto
qed

lemma demo_fractional_fields:
  "AOI demo_fractional = \<lparr>xmin = 3 / 4, xmax = 23 / 8, ymin = 0, ymax = 2\<rparr>"
  "backgroundImage demo_fractional = None"
  by (simp_all add: demo_fractional_def On_set_AOI_def zoom_def demo_state_def)

lemma demo_fractional_hyps:
  "background_fits demo_frame demo_fractional"
  "spec_aoi_valid (ncols demo_frame) (nrows demo_frame) (AOI demo_fractional)"
  by (simp_all add: background_fits_def spec_aoi_valid_def demo_fractional_fields demo_shapes)

lemma demo_fractional_int:
  "py_int (xmin (AOI demo_fractional)) = 0" "py_int (xmax (AOI demo_fractional)) = 2"
  "py_int (ymin (AOI demo_fractional)) = 0" "py_int (ymax (AOI demo_fractional)) = 2"
  by (simp_all add: demo_fractional_fields py_int_def)

theorem projection_lengths_witness:
  "shape_ok demo_frame \<and> background_fits demo_frame demo_fractional \<and>
   spec_aoi_valid (ncols demo_frame) (nrows demo_frame) (AOI demo_fractional) \<and>
   length (np_sum0 (imdata (snd (loop_body failing_fit demo_frame demo_fractional)))) = 2 \<and>
   length (np_sum1 (imdata (snd (loop_body failing_fit demo_frame demo_fractional)))) = 2 \<and>
   background_fits demo_frame demo_zoomed \<and>
   spec_aoi_valid (ncols demo_frame) (nrows demo_frame) (AOI demo_zoomed) \<and>
   integral_aoi (AOI demo_zoomed) \<and>
   fst (loop_body failing_fit demo_frame demo_zoomed) = None \<and>
   length (np_sum0 (imdata (snd (loop_body failing_fit demo_frame demo_zoomed)))) = 2 \<and>
   length (np_sum1 (imdata (snd (loop_body failing_fit demo_frame demo_zoomed)))) = 2 \<and>
   length (snd (hintplot (snd (loop_body failing_fit demo_frame demo_zoomed)))) = 2 \<and>
   length (snd (vintplot (snd (loop_body failing_fit demo_frame demo_zoomed)))) = 2"
proof -
  note a = projection_lengths [OF demo_shapes(1) demo_fractional_hyps, of failing_fit]
  from a have f:
    "length (np_sum0 (imdata (snd (loop_body failing_fit demo_frame demo_fractional)))) = 2"
    "length (np_sum1 (imdata (snd (loop_body failing_fit demo_frame demo_fractional)))) = 2"
    by (simp_all add: demo_fractional_int)
  note b = projection_lengths [OF demo_shapes(1) demo_zoomed_hyps(1,2), of failing_fit,
      THEN conjunct2, THEN conjunct2, rule_format, OF demo_zoomed_hyps(3)]
  from b have z:
    "fst (loop_body failing_fit demo_frame demo_zoomed) = None"
    "length (np_sum0 (imdata (snd (loop_body failing_fit demo_frame demo_zoomed)))) = 2"
    "length (np_sum1 (imdata (snd (loop_body failing_fit demo_frame demo_zoomed)))) = 2"
    "length (snd (hintplot (snd (loop_body failing_fit demo_frame demo_zoomed)))) = 2"
    "length (snd (vintplot (snd (loop_body failing_fit demo_frame demo_zoomed)))) = 2"
    by (simp_all add: demo_zoomed_fields)
  show ?thesis
    using f z demo_shapes(1) demo_fractional_hyps demo_zoomed_hyps by simp
qed

theorem projection_lengths_counterexample:
  "shape_ok demo_frame \<and> background_fits demo_frame demo_fractional \<and>
   spec_aoi_valid (ncols demo_frame) (nrows demo_frame) (AOI demo_fractional) \<and>
   xmax (AOI demo_fractional) - xmin (AOI demo_fractional) = 17 / 8 \<and>
   length (np_sum0 (imdata (snd (loop_body failing_fit demo_frame demo_fractional)))) = 2 \<and>
   real (length (np_sum0 (imdata (snd (loop_body failing_fit demo_frame demo_fractional)))))
     \<noteq> xmax (AOI demo_fractional) - xmin (AOI demo_fractional)"
proof -
  have l: "length (np_sum0 (imdata (snd (loop_body failing_fit demo_frame demo_fractional)))) = 2"
    using valid_aoi_lengths(1) [OF demo_shapes(1) demo_fractional_hyps, of failing_fit]
    by (simp add: demo_fractional_int)
  have w: "xmax (AOI demo_fractional) - xmin (AOI demo_fractional) = 17 / 8"
    by (simp add: demo_fractional_fields)
  show ?thesis using demo_shapes(1) demo_fractional_hyps by (simp add: l w)
qed









end
